theory Spec2Isabelle
  imports Complex_Main
begin

section \<open>Signal-flow visualisation: the linear visualizer\<close>

text \<open>
  A shallow embedding of \<^verbatim>\<open>sfv/visualizers/linearvisualizer.py\<close>: the helpers
  \<^verbatim>\<open>_update_edges\<close>, \<^verbatim>\<open>_update_single_label_name\<close>,
  \<^verbatim>\<open>_update_single_label_activity\<close> and the method
  \<^verbatim>\<open>LinearVisualizer.visualize\<close>.

  Numbers are real numbers: the arithmetic of the source is read as exact, and the
  rounding and the infinities of IEEE floating point are not part of the model. The flows
  and the activities, which enter the arithmetic, are finite numbers. The adjacency
  matrix is only ever compared with zero, so its entries are finite numbers or NaN. The
  positions held by \<^verbatim>\<open>n2i\<close> are natural numbers.

  The in-place mutation of the network is explicit state passing. An exception is a
  value that carries the state reached when it was raised, so that what the call had
  already mutated stays visible.
\<close>

subsection \<open>Errors and outcomes\<close>

datatype error =
    ValueError string
  | KeyError
  | IndexError
  | TypeError
  | RuntimeError string

datatype 's outcome = Done 's | Raised error 's

subsection \<open>The objects of the host toolkit\<close>

type_synonym rgb = "int \<times> int \<times> int"
type_synonym rgba = "int \<times> int \<times> int \<times> int"

datatype qfont = QFont string nat

text \<open>\<^verbatim>\<open>PosHead\<close> is the TRIANGLE arrow class and \<^verbatim>\<open>NegHead\<close> the HAMMER
  arrow class; an edge that was never visualised may carry a head of any other class.\<close>

datatype head_class = PosHead | NegHead | OtherHead

record head =
  h_class :: head_class
  h_width :: real
  h_height :: real
  h_offset :: real

record edge =
  e_head :: head
  e_fill_color :: rgba
  e_width :: real

record node =
  n_iden :: string
  n_name :: string
  n_width :: real
  n_height :: real
  n_fill_color :: rgb
  n_border_width :: real
  n_border_color :: rgb

record label =
  l_iden :: string
  l_parent :: string
  l_text :: string
  l_font :: qfont
  l_text_color :: rgb
  l_font_bold :: bool
  l_pos :: "real \<times> real"

text \<open>
  The network. \<^verbatim>\<open>net.nodes\<close> is an insertion-ordered dictionary that the toolkit
  keys by each node's \<^verbatim>\<open>iden\<close>: it is the list of its nodes in iteration order, and
  \<^verbatim>\<open>items()\<close> yields \<open>(n_iden n, n)\<close>. \<^verbatim>\<open>net.nxgraph[src][tgt]['GRAPHICS']\<close>
  is a map from the pair of endpoints to the edge, \<^verbatim>\<open>net.labels\<close> a map from
  identifiers to labels.
\<close>

record network =
  nodes :: "node list"
  nxgraph :: "string \<times> string \<rightharpoonup> edge"
  labels :: "string \<rightharpoonup> label"

text \<open>
  What the source takes from outside the repository and no claim fixes, as parameters:
  \<^item> \<open>lightness\<close>: \<^verbatim>\<open>QColor(...).lightness()\<close>;
  \<^item> \<open>boundingRect\<close>: the width and height of a label's rendered text;
  \<^item> \<open>TextLabel\<close>: the constructor \<^verbatim>\<open>TextLabel(node, text=...)\<close>;
  \<^item> \<open>format\<close>: Python's operator \<^verbatim>\<open>%\<close> on a string and a number, which raises on
    a malformed format and on an argument that no conversion consumes.
\<close>

record env =
  lightness :: "rgb \<Rightarrow> int"
  boundingRect :: "label \<Rightarrow> real \<times> real"
  TextLabel :: "node \<Rightarrow> string \<Rightarrow> label"
  format :: "string \<Rightarrow> real \<Rightarrow> error + string"

text \<open>Modelled from the spec: the toolkit's \<^verbatim>\<open>Network.add_label\<close> and
  \<^verbatim>\<open>Network.remove_label\<close> are not in the repository; they register a label in the
  network's label mapping under the label's identifier, and remove that entry.\<close>

definition add_label :: "(string \<rightharpoonup> label) \<Rightarrow> label \<Rightarrow> (string \<rightharpoonup> label)" where
  "add_label ls lab = ls(l_iden lab \<mapsto> lab)"

definition remove_label :: "(string \<rightharpoonup> label) \<Rightarrow> label \<Rightarrow> (string \<rightharpoonup> label)" where
  "remove_label ls lab = ls(l_iden lab := None)"

subsection \<open>The arguments of \<^verbatim>\<open>visualize\<close>\<close>

text \<open>\<^verbatim>\<open>color_up\<close> and \<^verbatim>\<open>color_dn\<close> are tested for truth, then for being a
  \<^verbatim>\<open>QColor\<close>: a falsy value (\<^verbatim>\<open>None\<close> is the default), a colour object with its
  red, green and blue, or any other truthy value.\<close>

datatype color_arg = Falsy | QColorObj int int int | OtherValue

text \<open>
  An entry of the adjacency matrix. The source tests it three ways: \<^verbatim>\<open>nonzero()\<close>,
  for which NaN counts as nonzero, and the comparisons \<^verbatim>\<open>A[i, j] > 0\<close> and
  \<^verbatim>\<open>A[i, j] < 0\<close>, both false on NaN.
\<close>

datatype entry = Finite real | NaN

definition is_nonzero :: "entry \<Rightarrow> bool" where
  "is_nonzero a = (case a of Finite x \<Rightarrow> x \<noteq> 0 | NaN \<Rightarrow> True)"

definition gt_zero :: "entry \<Rightarrow> bool" where
  "gt_zero a = (case a of Finite x \<Rightarrow> x > 0 | NaN \<Rightarrow> False)"

definition lt_zero :: "entry \<Rightarrow> bool" where
  "lt_zero a = (case a of Finite x \<Rightarrow> x < 0 | NaN \<Rightarrow> False)"

record args =
  F :: "real list list"
  acts :: "real list"
  A :: "entry list list"
  n2i :: "(string \<times> nat) list"
  color_up :: color_arg
  color_dn :: color_arg
  lw_min :: real
  lw_max :: real
  pct_edge :: real
  show_label :: bool
  show_act :: bool
  pct_act :: real
  fmt_act :: string
  fix_node_size :: bool
  fix_act_label :: bool
  font :: "qfont option"

subsection \<open>The numpy operations\<close>

text \<open>\<^verbatim>\<open>np.clip(x, a_min, a_max)\<close> is \<^verbatim>\<open>minimum(maximum(x, a_min), a_max)\<close>.\<close>

definition clip :: "real \<Rightarrow> real \<Rightarrow> real \<Rightarrow> real" where
  "clip x a_min a_max = min (max x a_min) a_max"

text \<open>\<^verbatim>\<open>np.int32\<close> of a float truncates towards zero.\<close>

definition int32 :: "real \<Rightarrow> int" where
  "int32 x = (if 0 \<le> x then \<lfloor>x\<rfloor> else \<lceil>x\<rceil>)"

text \<open>\<^verbatim>\<open>a.max()\<close> and \<^verbatim>\<open>a.min()\<close> raise a ValueError on an empty array.\<close>

fun amax :: "real list \<Rightarrow> error + real" where
  "amax [] = Inl (ValueError ''zero-size array to reduction operation maximum which has no identity'')"
| "amax (x # xs) = Inr (fold max xs x)"

fun amin :: "real list \<Rightarrow> error + real" where
  "amin [] = Inl (ValueError ''zero-size array to reduction operation minimum which has no identity'')"
| "amin (x # xs) = Inr (fold min xs x)"

text \<open>
  \<^verbatim>\<open>np.percentile(a, q)\<close> with its default linear interpolation: \<open>q\<close> outside
  \<open>[0, 100]\<close> is a ValueError; otherwise the sorted data is read at the virtual index
  \<open>q / 100 * (n - 1)\<close>, between its two neighbours. What numpy does on an empty array
  depends on its version; here it is an error.
\<close>

definition percentile :: "real list \<Rightarrow> real \<Rightarrow> error + real" where
  "percentile a q =
     (if q < 0 \<or> 100 < q then Inl (ValueError ''Percentiles must be in the range [0, 100]'')
      else if a = [] then Inl IndexError
      else
        let s = sort a;
            n = length a;
            v = q / 100 * real (n - 1);
            lo = nat \<lfloor>v\<rfloor>;
            hi = min (lo + 1) (n - 1);
            g = v - real lo
        in Inr (s ! lo + g * (s ! hi - s ! lo)))"

text \<open>A matrix is the list of its rows; \<^verbatim>\<open>M[i, j]\<close> outside it is an IndexError.\<close>

definition mat_get :: "'a list list \<Rightarrow> nat \<Rightarrow> nat \<Rightarrow> 'a option" where
  "mat_get M i j = (if i < length M \<and> j < length (M ! i) then Some (M ! i ! j) else None)"

text \<open>\<^verbatim>\<open>np.array(A).nonzero()\<close>, zipped: the positions of the nonzero entries of the
  adjacency matrix in row-major order.\<close>

definition nonzero :: "entry list list \<Rightarrow> (nat \<times> nat) list" where
  "nonzero M =
     concat (map (\<lambda>i. map (\<lambda>j. (i, j))
                       (filter (\<lambda>j. is_nonzero (M ! i ! j)) [0 ..< length (M ! i)]))
       [0 ..< length M])"

text \<open>\<^verbatim>\<open>M[np.array(M).nonzero()]\<close>: the nonzero entries, in the same order.\<close>

definition nonzero_entries :: "real list list \<Rightarrow> real list" where
  "nonzero_entries M = filter (\<lambda>x. x \<noteq> 0) (concat M)"

subsection \<open>Strings and dictionaries\<close>

text \<open>\<^verbatim>\<open>str.upper()\<close> on the ASCII letters; a byte outside \<open>a..z\<close> is kept.\<close>

definition upper_char :: "char \<Rightarrow> char" where
  "upper_char c =
     (case map_of (zip ''abcdefghijklmnopqrstuvwxyz'' ''ABCDEFGHIJKLMNOPQRSTUVWXYZ'') c of
        Some u \<Rightarrow> u
      | None \<Rightarrow> c)"

definition upper :: "string \<Rightarrow> string" where
  "upper s = map upper_char s"

text \<open>The identifier of a node's activity label: \<^verbatim>\<open>'%s_act' % iden.upper()\<close>.\<close>

definition act_iden :: "string \<Rightarrow> string" where
  "act_iden iden = upper iden @ ''_act''"

text \<open>\<^verbatim>\<open>i2n = {val: key for key, val in n2i.items()}\<close>: a later item overwrites an
  earlier one with the same value.\<close>

definition invert :: "(string \<times> nat) list \<Rightarrow> (nat \<rightharpoonup> string)" where
  "invert d = map_of (rev (map (\<lambda>(key, val). (val, key)) d))"

subsection \<open>\<^verbatim>\<open>_update_edges\<close>\<close>

text \<open>Lines 27 to 30: the logarithms of the absolute nonzero flows, their maximum, their
  minimum and their \<open>pct_edge\<close>-th percentile, in the order the source computes them.\<close>

definition log_flows :: "real list list \<Rightarrow> real list" where
  "log_flows Fm = map (\<lambda>x. log 10 \<bar>x\<bar>) (nonzero_entries Fm)"

definition flow_stats :: "real list list \<Rightarrow> real \<Rightarrow> error + (real \<times> real \<times> real)" where
  "flow_stats Fm pct =
     (case amax (log_flows Fm) of
        Inl e \<Rightarrow> Inl e
      | Inr flow_max \<Rightarrow>
          (case amin (log_flows Fm) of
             Inl e \<Rightarrow> Inl e
           | Inr flow_min \<Rightarrow>
               (case percentile (log_flows Fm) pct of
                  Inl e \<Rightarrow> Inl e
                | Inr flow_thr \<Rightarrow> Inr (flow_max, flow_min, flow_thr))))"

text \<open>Lines 40 to 56: the arrowhead and the colour of the edge at position \<open>(i, j)\<close>,
  from the flow \<open>f\<close> there. The adjacency matrix is read only when the flow is zero. The
  new head takes the width, height and offset of the old one.\<close>

definition choose_head ::
  "head \<Rightarrow> real \<Rightarrow> entry list list \<Rightarrow> nat \<Rightarrow> nat \<Rightarrow> error + (head \<times> rgba)" where
  "choose_head head_old f Am i j =
     (if f > 0 then Inr (head_old\<lparr>h_class := PosHead\<rparr>, (255, 10, 10, 70))
      else if f < 0 then Inr (head_old\<lparr>h_class := NegHead\<rparr>, (10, 10, 255, 70))
      else
        (case mat_get Am i j of
           None \<Rightarrow> Inl IndexError
         | Some a \<Rightarrow>
             if gt_zero a then Inr (head_old\<lparr>h_class := PosHead\<rparr>, (100, 100, 100, 100))
             else if lt_zero a then Inr (head_old\<lparr>h_class := NegHead\<rparr>, (100, 100, 100, 100))
             else Inl (RuntimeError ''The logic is abnormal.'')))"

text \<open>Lines 61 to 69: the width of an edge.\<close>

definition edge_width :: "real \<Rightarrow> real \<Rightarrow> real \<Rightarrow> real \<Rightarrow> real \<Rightarrow> real \<Rightarrow> real" where
  "edge_width lwmin lwmax flow_max flow_min flow_thr f =
     (if f = 0 then lwmin
      else if flow_max - flow_min = 0 then 0.5 * (lwmax + lwmin)
      else
        let log_f = log 10 \<bar>f\<bar>;
            log_f = clip log_f flow_min flow_thr
        in (log_f - flow_min) / (flow_max - flow_min) * (lwmax - lwmin) + lwmin)"

text \<open>The body of the loop at position \<open>(i, j)\<close>: every lookup that can raise is a
  branch, in the order of the source.\<close>

definition update_edge ::
  "entry list list \<Rightarrow> real list list \<Rightarrow> (nat \<rightharpoonup> string) \<Rightarrow> real \<Rightarrow> real \<Rightarrow> real \<Rightarrow> real \<Rightarrow> real \<Rightarrow>
   nat \<times> nat \<Rightarrow> network \<Rightarrow> network outcome" where
  "update_edge Am Fm i2n flow_max flow_min flow_thr lwmin lwmax p net =
     (case i2n (fst p) of
        None \<Rightarrow> Raised KeyError net
      | Some tgt \<Rightarrow>
     (case i2n (snd p) of
        None \<Rightarrow> Raised KeyError net
      | Some src \<Rightarrow>
     (case mat_get Fm (fst p) (snd p) of
        None \<Rightarrow> Raised IndexError net
      | Some f \<Rightarrow>
     (case nxgraph net (src, tgt) of
        None \<Rightarrow> Raised KeyError net
      | Some e \<Rightarrow>
     (case choose_head (e_head e) f Am (fst p) (snd p) of
        Inl err \<Rightarrow> Raised err net
      | Inr (hd_new, color_edge) \<Rightarrow>
          Done (net\<lparr>nxgraph := (nxgraph net)((src, tgt) \<mapsto>
            e\<lparr>e_head := hd_new, e_fill_color := color_edge,
              e_width := edge_width lwmin lwmax flow_max flow_min flow_thr f\<rparr>)\<rparr>))))))"

fun edges_loop ::
  "entry list list \<Rightarrow> real list list \<Rightarrow> (nat \<rightharpoonup> string) \<Rightarrow> real \<Rightarrow> real \<Rightarrow> real \<Rightarrow> real \<Rightarrow> real \<Rightarrow>
   (nat \<times> nat) list \<Rightarrow> network \<Rightarrow> network outcome" where
  "edges_loop Am Fm i2n flow_max flow_min flow_thr lwmin lwmax [] net = Done net"
| "edges_loop Am Fm i2n flow_max flow_min flow_thr lwmin lwmax (p # ps) net =
     (case update_edge Am Fm i2n flow_max flow_min flow_thr lwmin lwmax p net of
        Raised err net' \<Rightarrow> Raised err net'
      | Done net' \<Rightarrow> edges_loop Am Fm i2n flow_max flow_min flow_thr lwmin lwmax ps net')"

definition update_edges ::
  "network \<Rightarrow> entry list list \<Rightarrow> real list list \<Rightarrow> (nat \<rightharpoonup> string) \<Rightarrow> real \<Rightarrow> real \<Rightarrow> real \<Rightarrow>
   network outcome" where
  "update_edges net Am Fm i2n pct lwmin lwmax =
     (case flow_stats Fm pct of
        Inl e \<Rightarrow> Raised e net
      | Inr (flow_max, flow_min, flow_thr) \<Rightarrow>
          edges_loop Am Fm i2n flow_max flow_min flow_thr lwmin lwmax (nonzero Am) net)"

subsection \<open>\<^verbatim>\<open>_update_single_label_name\<close>\<close>

definition update_single_label_name ::
  "env \<Rightarrow> (string \<rightharpoonup> label) \<Rightarrow> node \<Rightarrow> string \<Rightarrow> bool \<Rightarrow> qfont \<Rightarrow>
   (node \<times> (string \<rightharpoonup> label)) outcome" where
  "update_single_label_name ev ls nd name fix_size fnt =
     (case ls name of
        None \<Rightarrow> Raised KeyError (nd, ls)
      | Some label_name \<Rightarrow>
          let lgt = lightness ev (n_fill_color nd);
              label_name = label_name\<lparr>l_text_color := (0, 0, 0)\<rparr>;
              label_name = label_name\<lparr>l_font := fnt\<rparr>;
              label_name =
                (if lgt < 200 then label_name\<lparr>l_text_color := (255, 255, 255), l_font_bold := True\<rparr>
                 else label_name\<lparr>l_text_color := (0, 0, 0), l_font_bold := False\<rparr>);
              rect = boundingRect ev label_name;
              label_name = label_name\<lparr>l_pos := (- fst rect / 2, - snd rect / 2)\<rparr>;
              nd = (if \<not> fix_size
                    then nd\<lparr>n_width := 1.1 * fst rect, n_height := 1.1 * snd rect\<rparr>
                    else nd)
          in Done (nd, ls(name \<mapsto> label_name)))"

subsection \<open>\<^verbatim>\<open>_update_single_label_activity\<close>\<close>

text \<open>Lines 109 to 114, which run for a new and for an existing label alike.\<close>

definition place_act_label :: "env \<Rightarrow> node \<Rightarrow> qfont \<Rightarrow> label \<Rightarrow> label" where
  "place_act_label ev nd fnt label_act =
     (let label_act = label_act\<lparr>l_font := fnt\<rparr>;
          label_act = label_act\<lparr>l_text_color := (20, 20, 20)\<rparr>;
          rect = boundingRect ev label_act;
          pos_x = n_width nd / 2 + 0.5
      in label_act\<lparr>l_pos := (pos_x, - snd rect / 2)\<rparr>)"

definition update_single_label_activity ::
  "env \<Rightarrow> (string \<rightharpoonup> label) \<Rightarrow> node \<Rightarrow> real \<Rightarrow> bool \<Rightarrow> string \<Rightarrow> qfont \<Rightarrow>
   (string \<rightharpoonup> label) outcome" where
  "update_single_label_activity ev ls nd activity fix_label fmt fnt =
     (let iden = act_iden (n_iden nd) in
      case format ev fmt activity of
        Inl e \<Rightarrow> Raised e ls
      | Inr str_x \<Rightarrow>
          (case ls iden of
             None \<Rightarrow>
               let label_act = (TextLabel ev nd str_x)\<lparr>l_iden := iden\<rparr>;
                   label_act = (if \<not> fix_label then place_act_label ev nd fnt label_act
                                else label_act)
               in Done (add_label ls label_act)
           | Some label_act \<Rightarrow>
               (case format ev str_x activity of
                  Inl e \<Rightarrow> Raised e ls
                | Inr txt \<Rightarrow>
                    let label_act = label_act\<lparr>l_text := txt\<rparr>;
                        label_act = (if \<not> fix_label then place_act_label ev nd fnt label_act
                                     else label_act)
                    in Done (ls(iden \<mapsto> label_act)))))"

subsection \<open>\<^verbatim>\<open>LinearVisualizer.visualize\<close>\<close>

definition resolve_color :: "color_arg \<Rightarrow> rgb \<Rightarrow> string \<Rightarrow> error + rgb" where
  "resolve_color c dflt msg =
     (case c of
        Falsy \<Rightarrow> Inr dflt
      | QColorObj r g b \<Rightarrow> Inr (r, g, b)
      | OtherValue \<Rightarrow> Inl (ValueError msg))"

text \<open>Lines 260 to 264: \<^verbatim>\<open>color_white + t * (target - color_white)\<close>, each channel
  through \<^verbatim>\<open>np.int32\<close>.\<close>

definition blend :: "rgb \<Rightarrow> real \<Rightarrow> rgb" where
  "blend target t =
     (case target of (r, g, b) \<Rightarrow>
        (int32 (255 + t * (real_of_int r - 255)),
         int32 (255 + t * (real_of_int g - 255)),
         int32 (255 + t * (real_of_int b - 255))))"

text \<open>Lines 240 to 248: the threshold and the interpolation factors.\<close>

definition act_thr :: "real list \<Rightarrow> real \<Rightarrow> error + real" where
  "act_thr as pct =
     (case percentile (map abs as) pct of
        Inl e \<Rightarrow> Inl e
      | Inr thr \<Rightarrow> Inr (if thr = 0 then 1 else thr))"

definition arr_t :: "real list \<Rightarrow> real \<Rightarrow> real list" where
  "arr_t as thr = map (\<lambda>elem. clip (\<bar>elem\<bar> / thr) 0 1) as"

text \<open>
  The body of the loop over \<^verbatim>\<open>net.nodes.items()\<close>, lines 251 to 282, on one node and
  the label mapping. Over the real numbers \<^verbatim>\<open>act <= 0\<close> is the complement of
  \<^verbatim>\<open>act > 0\<close>, so the \<^verbatim>\<open>elif\<close> is the \<open>else\<close>.
\<close>

definition node_body ::
  "env \<Rightarrow> args \<Rightarrow> rgb \<Rightarrow> rgb \<Rightarrow> qfont \<Rightarrow> real list \<Rightarrow> node \<Rightarrow> (string \<rightharpoonup> label) \<Rightarrow>
   (node \<times> (string \<rightharpoonup> label)) outcome" where
  "node_body ev ar cup cdn fnt ts nd ls =
     (case map_of (n2i ar) (n_iden nd) of
        None \<Rightarrow> Raised KeyError (nd, ls)
      | Some idx \<Rightarrow>
          let nd = (if \<not> fix_node_size ar then nd\<lparr>n_width := 20, n_height := 20\<rparr> else nd) in
          if \<not> idx < length (acts ar) then Raised IndexError (nd, ls)
          else
            let act = acts ar ! idx;
                color = (if act > 0 then blend cup (ts ! idx) else blend cdn (ts ! idx));
                nd = nd\<lparr>n_fill_color := color, n_border_width := 2,
                       n_border_color := (40, 40, 40)\<rparr>
            in
            (case (if show_label ar
                   then update_single_label_name ev ls nd (n_name nd) (fix_node_size ar) fnt
                   else Done (nd, ls)) of
               Raised e s \<Rightarrow> Raised e s
             | Done (nd, ls) \<Rightarrow>
                 if show_act ar then
                   (case update_single_label_activity ev ls nd act (fix_act_label ar)
                           (fmt_act ar) fnt of
                      Raised e ls' \<Rightarrow> Raised e (nd, ls')
                    | Done ls' \<Rightarrow> Done (nd, ls'))
                 else
                   (case ls (act_iden (n_iden nd)) of
                      Some lab \<Rightarrow> Done (nd, remove_label ls lab)
                    | None \<Rightarrow> Done (nd, ls))))"

text \<open>The loop: the nodes already processed, the nodes to come, the label mapping. An
  exception leaves the earlier nodes updated and the later ones untouched.\<close>

fun nodes_loop ::
  "env \<Rightarrow> args \<Rightarrow> rgb \<Rightarrow> rgb \<Rightarrow> qfont \<Rightarrow> real list \<Rightarrow> node list \<Rightarrow> node list \<Rightarrow>
   (string \<rightharpoonup> label) \<Rightarrow> (node list \<times> (string \<rightharpoonup> label)) outcome" where
  "nodes_loop ev ar cup cdn fnt ts seen [] ls = Done (seen, ls)"
| "nodes_loop ev ar cup cdn fnt ts seen (nd # rest) ls =
     (case node_body ev ar cup cdn fnt ts nd ls of
        Raised e (nd', ls') \<Rightarrow> Raised e (seen @ nd' # rest, ls')
      | Done (nd', ls') \<Rightarrow> nodes_loop ev ar cup cdn fnt ts (seen @ [nd']) rest ls')"

definition visualize :: "env \<Rightarrow> args \<Rightarrow> network \<Rightarrow> network outcome" where
  "visualize ev ar net =
     (let i2n = invert (n2i ar) in
      case resolve_color (color_up ar) (255, 0, 0)
             ''color_up should be 3-dimensional np.ndarray or QtGui.QColor'' of
        Inl e \<Rightarrow> Raised e net
      | Inr cup \<Rightarrow>
     (case resolve_color (color_dn ar) (0, 0, 255)
             ''color_dn should be 3-dimensional np.ndarray or QtGui.QColor'' of
        Inl e \<Rightarrow> Raised e net
      | Inr cdn \<Rightarrow>
          let fnt = (case font ar of None \<Rightarrow> QFont ''Arial'' 10 | Some f \<Rightarrow> f) in
     (case act_thr (acts ar) (pct_act ar) of
        Inl e \<Rightarrow> Raised e net
      | Inr thr \<Rightarrow>
     (case nodes_loop ev ar cup cdn fnt (arr_t (acts ar) thr) [] (nodes net) (labels net) of
        Raised e (ns, ls) \<Rightarrow> Raised e (net\<lparr>nodes := ns, labels := ls\<rparr>)
      | Done (ns, ls) \<Rightarrow>
          update_edges (net\<lparr>nodes := ns, labels := ls\<rparr>) (A ar) (F ar) i2n
            (pct_edge ar) (lw_min ar) (lw_max ar)))))"

subsection \<open>A concrete environment\<close>

text \<open>
  For running the model on concrete inputs: Python's \<^verbatim>\<open>%\<close> with a float argument, on
  the formats built from literal characters, \<^verbatim>\<open>%%\<close> and \<^verbatim>\<open>%d\<close> (which writes
  the number truncated towards zero). It raises a TypeError when a second conversion asks
  for an argument or when no conversion has used the argument, and a ValueError on an
  incomplete format. Any other conversion is outside this fragment and is an error here.
\<close>

fun dec :: "nat \<Rightarrow> string" where
  "dec n = (if n < 10 then [''0123456789'' ! n] else dec (n div 10) @ [''0123456789'' ! (n mod 10)])"

definition str_of_int :: "int \<Rightarrow> string" where
  "str_of_int k = (if k < 0 then CHR ''-'' # dec (nat (- k)) else dec (nat k))"

fun format_from :: "string \<Rightarrow> real \<Rightarrow> bool \<Rightarrow> string \<Rightarrow> error + string" where
  "format_from [] x used out = (if used then Inr out else Inl TypeError)"
| "format_from [c] x used out =
     (if c = CHR ''%'' then Inl (ValueError ''incomplete format'')
      else format_from [] x used (out @ [c]))"
| "format_from (c # d # cs) x used out =
     (if c \<noteq> CHR ''%'' then format_from (d # cs) x used (out @ [c])
      else if d = CHR ''%'' then format_from cs x used (out @ ''%'')
      else if d = CHR ''d'' then
        (if used then Inl TypeError
         else format_from cs x True (out @ str_of_int (int32 x)))
      else Inl (ValueError ''unsupported format character''))"

definition format_d :: "string \<Rightarrow> real \<Rightarrow> error + string" where
  "format_d fmt x = format_from fmt x False []"

text \<open>A toolkit for the examples: six units of width for each character and twelve of
  height, the lightness of a colour as the mean of its extreme channels, and a new label
  at the origin, in black 9-point type.\<close>

definition ex_env :: env where
  "ex_env =
     \<lparr>lightness = (\<lambda>(r, g, b). (max r (max g b) + min r (min g b)) div 2),
      boundingRect = (\<lambda>l. (6 * real (length (l_text l)), 12)),
      TextLabel = (\<lambda>nd s. \<lparr>l_iden = [], l_parent = n_iden nd, l_text = s,
                           l_font = QFont ''Sans'' 9, l_text_color = (0, 0, 0),
                           l_font_bold = False, l_pos = (0, 0)\<rparr>),
      format = format_d\<rparr>"

subsection \<open>Auxiliary notions for the proofs\<close>

text \<open>The edge that the loop body writes at a position, and what it writes there.\<close>

definition edge_at :: "(nat \<rightharpoonup> string) \<Rightarrow> nat \<times> nat \<Rightarrow> (string \<times> string) option" where
  "edge_at i2n p =
     (case (i2n (snd p), i2n (fst p)) of (Some src, Some tgt) \<Rightarrow> Some (src, tgt) | _ \<Rightarrow> None)"

definition written ::
  "entry list list \<Rightarrow> real list list \<Rightarrow> real \<Rightarrow> real \<Rightarrow> real \<Rightarrow> real \<Rightarrow> real \<Rightarrow> nat \<times> nat \<Rightarrow> edge \<Rightarrow> bool" where
  "written Am Fm mx mn thr lwmin lwmax p e \<longleftrightarrow>
     (\<exists>f h. mat_get Fm (fst p) (snd p) = Some f \<and>
        choose_head h f Am (fst p) (snd p) = Inr (e_head e, e_fill_color e) \<and>
        e_width e = edge_width lwmin lwmax mx mn thr f)"

subsection \<open>A concrete network and concrete arguments\<close>

text \<open>Two nodes \<open>a\<close> and \<open>b\<close>, an edge in each direction, a name label for each node.\<close>

definition ex_node :: "string \<Rightarrow> node" where
  "ex_node s = \<lparr>n_iden = s, n_name = s, n_width = 30, n_height = 30, n_fill_color = (0, 0, 0),
     n_border_width = 1, n_border_color = (0, 0, 0)\<rparr>"

definition ex_label :: "string \<Rightarrow> string \<Rightarrow> string \<Rightarrow> label" where
  "ex_label k parent txt = \<lparr>l_iden = k, l_parent = parent, l_text = txt,
     l_font = QFont ''Sans'' 9, l_text_color = (0, 0, 0), l_font_bold = False, l_pos = (0, 0)\<rparr>"

definition ex_edge :: edge where
  "ex_edge = \<lparr>e_head = \<lparr>h_class = OtherHead, h_width = 10, h_height = 10, h_offset = 4\<rparr>,
     e_fill_color = (0, 0, 0, 255), e_width = 2\<rparr>"

definition ex_net :: network where
  "ex_net = \<lparr>nodes = [ex_node ''a'', ex_node ''b''],
     nxgraph = [(''b'', ''a'') \<mapsto> ex_edge, (''a'', ''b'') \<mapsto> ex_edge],
     labels = [''a'' \<mapsto> ex_label ''a'' ''a'' ''a'', ''b'' \<mapsto> ex_label ''b'' ''b'' ''b'']\<rparr>"

definition ex_args :: args where
  "ex_args = \<lparr>F = [[0, 10], [1, 0]], acts = [0.5, -1],
     A = [[Finite 0, Finite 1], [Finite (- 1), Finite 0]],
     n2i = [(''a'', 0), (''b'', 1)], color_up = Falsy, color_dn = Falsy, lw_min = 1,
     lw_max = 10, pct_edge = 90, show_label = True, show_act = True, pct_act = 50,
     fmt_act = ''%d%%d'', fix_node_size = False, fix_act_label = False, font = None\<rparr>"

text \<open>The state an outcome carries, whether the call returned or raised.\<close>

definition state_of :: "'s outcome \<Rightarrow> 's" where
  "state_of r = (case r of Done s \<Rightarrow> s | Raised e s \<Rightarrow> s)"

text \<open>The same call with the bounds of the width swapped and the percentile at 100.\<close>

definition ex_args_swapped :: args where
  "ex_args_swapped = ex_args\<lparr>lw_min := 10, lw_max := 1, pct_edge := 100\<rparr>"

text \<open>The same call with no flow from \<open>b\<close> to \<open>a\<close> and NaN for the adjacency entry
  there.\<close>

definition ex_args_nan :: args where
  "ex_args_nan = ex_args\<lparr>F := [[0, 0], [1, 0]],
     A := [[Finite 0, NaN], [Finite (- 1), Finite 0]]\<rparr>"

text \<open>The same call with every activity zero.\<close>

definition ex_args_flat :: args where
  "ex_args_flat = ex_args\<lparr>acts := [0, 0]\<rparr>"

subsection \<open>Line 68 in double precision\<close>






text \<open>The part of \<^verbatim>\<open>visualize\<close> before the call of \<^verbatim>\<open>_update_edges\<close>, lines 213 to
  283, on its own: \<^verbatim>\<open>visualize\<close> is this pass followed by the edge pass (lemma
  \<open>visualize_split\<close>).\<close>

definition node_pass :: "env \<Rightarrow> args \<Rightarrow> network \<Rightarrow> network outcome" where
  "node_pass ev ar net =
     (case resolve_color (color_up ar) (255, 0, 0)
             ''color_up should be 3-dimensional np.ndarray or QtGui.QColor'' of
        Inl e \<Rightarrow> Raised e net
      | Inr cup \<Rightarrow>
     (case resolve_color (color_dn ar) (0, 0, 255)
             ''color_dn should be 3-dimensional np.ndarray or QtGui.QColor'' of
        Inl e \<Rightarrow> Raised e net
      | Inr cdn \<Rightarrow>
          let fnt = (case font ar of None \<Rightarrow> QFont ''Arial'' 10 | Some f \<Rightarrow> f) in
     (case act_thr (acts ar) (pct_act ar) of
        Inl e \<Rightarrow> Raised e net
      | Inr thr \<Rightarrow>
     (case nodes_loop ev ar cup cdn fnt (arr_t (acts ar) thr) [] (nodes net) (labels net) of
        Raised e (ns, ls) \<Rightarrow> Raised e (net\<lparr>nodes := ns, labels := ls\<rparr>)
      | Done (ns, ls) \<Rightarrow> Done (net\<lparr>nodes := ns, labels := ls\<rparr>)))))"

text \<open>The lookups of the loop body at a position succeed: both endpoints have a name,
  the graph has the edge, and the flow matrix has the position.\<close>

definition lookups_ok ::
  "(nat \<rightharpoonup> string) \<Rightarrow> real list list \<Rightarrow> (string \<times> string \<rightharpoonup> edge) \<Rightarrow> nat \<times> nat \<Rightarrow> bool" where
  "lookups_ok i2n Fm g q \<longleftrightarrow>
     (\<exists>tgt src e f. i2n (fst q) = Some tgt \<and> i2n (snd q) = Some src \<and> g (src, tgt) = Some e \<and>
        mat_get Fm (fst q) (snd q) = Some f)"

text \<open>The toolkit keeps every label of the mapping under the label's own identifier.\<close>

definition labels_wf :: "(string \<rightharpoonup> label) \<Rightarrow> bool" where
  "labels_wf ls \<longleftrightarrow> (\<forall>k l. ls k = Some l \<longrightarrow> l_iden l = k)"

section \<open>Properties\<close>

subsection \<open>Maximum, minimum and percentile\<close>

lemma amax_Inr:
  assumes "amax xs = Inr m"
  shows "xs \<noteq> [] \<and> m = Max (set xs)"
proof (cases xs)
  case Nil
  with assms show ?thesis by simp
next
  case (Cons x ys)
  with assms show ?thesis using Max.set_eq_fold[of x ys] by simp
qed

lemma amin_Inr:
  assumes "amin xs = Inr m"
  shows "xs \<noteq> [] \<and> m = Min (set xs)"
proof (cases xs)
  case Nil
  with assms show ?thesis by simp
next
  case (Cons x ys)
  with assms show ?thesis using Min.set_eq_fold[of x ys] by simp
qed

lemma percentile_Inr:
  assumes "percentile a q = Inr p"
  shows "0 \<le> q \<and> q \<le> 100 \<and> a \<noteq> []"
  using assms by (auto simp: percentile_def split: if_splits)

lemma lerp_between:
  fixes x y g :: real
  assumes "lo \<le> x" "x \<le> hi" "lo \<le> y" "y \<le> hi" "0 \<le> g" "g \<le> 1"
  shows "lo \<le> x + g * (y - x) \<and> x + g * (y - x) \<le> hi"
proof -
  have eq: "x + g * (y - x) = (1 - g) * x + g * y" by (simp add: algebra_simps)
  have "(1 - g) * lo + g * lo \<le> (1 - g) * x + g * y"
    using assms by (intro add_mono mult_left_mono) auto
  moreover have "(1 - g) * x + g * y \<le> (1 - g) * hi + g * hi"
    using assms by (intro add_mono mult_left_mono) auto
  ultimately show ?thesis unfolding eq by (simp add: algebra_simps)
qed

lemma percentile_bounds:
  assumes "percentile a q = Inr p"
  shows "Min (set a) \<le> p \<and> p \<le> Max (set a)"
proof -
  from assms have q: "0 \<le> q" "q \<le> 100" and ne: "a \<noteq> []"
    using percentile_Inr by blast+
  define n where "n = length a"
  define v where "v = q / 100 * real (n - 1)"
  define lo where "lo = nat \<lfloor>v\<rfloor>"
  define hi where "hi = min (lo + 1) (n - 1)"
  define g where "g = v - real lo"
  have n: "0 < n" using ne by (simp add: n_def)
  have v0: "0 \<le> v" using q by (simp add: v_def)
  have v1: "v \<le> real (n - 1)"
  proof -
    have "q / 100 \<le> 1" using q by simp
    then have "q / 100 * real (n - 1) \<le> 1 * real (n - 1)"
      by (intro mult_right_mono) auto
    then show ?thesis by (simp add: v_def)
  qed
  have lo_le: "real lo \<le> v" using v0 by (simp add: lo_def)
  have lo_n: "lo \<le> n - 1"
  proof -
    have "\<lfloor>v\<rfloor> \<le> int (n - 1)" using v1 by (simp add: floor_le_iff)
    then show ?thesis by (simp add: lo_def)
  qed
  have g0: "0 \<le> g" using lo_le by (simp add: g_def)
  have g1: "g \<le> 1"
  proof -
    have "v < real_of_int \<lfloor>v\<rfloor> + 1" by linarith
    moreover have "real lo = real_of_int \<lfloor>v\<rfloor>" using v0 by (simp add: lo_def)
    ultimately show ?thesis unfolding g_def by linarith
  qed
  have lo_lt: "lo < length (sort a)" using lo_n n unfolding n_def by (cases a) auto
  have hi_lt: "hi < length (sort a)" using n unfolding hi_def n_def by (cases a) auto
  have mem_lo: "sort a ! lo \<in> set a" using nth_mem[OF lo_lt] by simp
  have mem_hi: "sort a ! hi \<in> set a" using nth_mem[OF hi_lt] by simp
  have p: "p = sort a ! lo + g * (sort a ! hi - sort a ! lo)"
    using assms q ne by (simp add: percentile_def Let_def n_def v_def lo_def hi_def g_def)
  have "Min (set a) \<le> sort a ! lo" "sort a ! lo \<le> Max (set a)"
       "Min (set a) \<le> sort a ! hi" "sort a ! hi \<le> Max (set a)"
    using mem_lo mem_hi by simp_all
  from lerp_between[OF this g0 g1] show ?thesis unfolding p .
qed

lemma flow_stats_Inr:
  assumes "flow_stats Fm pct = Inr (flow_max, flow_min, flow_thr)"
  shows "log_flows Fm \<noteq> [] \<and> flow_max = Max (set (log_flows Fm)) \<and>
         flow_min = Min (set (log_flows Fm)) \<and> percentile (log_flows Fm) pct = Inr flow_thr"
  using assms by (auto simp: flow_stats_def split: sum.splits dest: amax_Inr amin_Inr)

lemma flow_stats_order:
  assumes "flow_stats Fm pct = Inr (flow_max, flow_min, flow_thr)"
  shows "flow_min \<le> flow_thr \<and> flow_thr \<le> flow_max"
  using flow_stats_Inr[OF assms] percentile_bounds[of "log_flows Fm" pct flow_thr] by simp


lemma clip_mono: "x \<le> y \<Longrightarrow> clip x a_min a_max \<le> clip y a_min a_max"
  by (auto simp: clip_def min_def max_def)

subsection \<open>The loop over the edges\<close>


lemma update_edge_frame:
  assumes "update_edge Am Fm i2n mx mn thr lwmin lwmax p net = Done net'"
  shows "nodes net' = nodes net \<and> labels net' = labels net"
  using assms
  by (auto simp: update_edge_def split: option.splits sum.splits prod.splits)

lemma update_edge_Raised:
  assumes "update_edge Am Fm i2n mx mn thr lwmin lwmax p net = Raised e net'"
  shows "net' = net"
  using assms
  by (auto simp: update_edge_def split: option.splits sum.splits prod.splits)

lemma edges_loop_frame:
  assumes "edges_loop Am Fm i2n mx mn thr lwmin lwmax ps net = Done net'"
  shows "nodes net' = nodes net \<and> labels net' = labels net"
  using assms
proof (induction ps arbitrary: net)
  case Nil
  then show ?case by simp
next
  case (Cons p ps)
  then show ?case
    by (auto split: outcome.splits dest!: update_edge_frame)
qed

lemma update_edge_Done:
  assumes "update_edge Am Fm i2n mx mn thr lwmin lwmax p net = Done net'"
  shows "\<exists>k e. edge_at i2n p = Some k \<and> nxgraph net' = (nxgraph net)(k \<mapsto> e) \<and>
           written Am Fm mx mn thr lwmin lwmax p e"
proof -
  from assms obtain tgt src f e0 hd_new color_edge where
    t: "i2n (fst p) = Some tgt" and s: "i2n (snd p) = Some src" and
    f: "mat_get Fm (fst p) (snd p) = Some f" and e0: "nxgraph net (src, tgt) = Some e0" and
    h: "choose_head (e_head e0) f Am (fst p) (snd p) = Inr (hd_new, color_edge)" and
    n: "net' = net\<lparr>nxgraph := (nxgraph net)((src, tgt) \<mapsto>
            e0\<lparr>e_head := hd_new, e_fill_color := color_edge,
              e_width := edge_width lwmin lwmax mx mn thr f\<rparr>)\<rparr>"
    by (auto simp: update_edge_def split: option.splits sum.splits prod.splits)
  define e where "e = e0\<lparr>e_head := hd_new, e_fill_color := color_edge,
              e_width := edge_width lwmin lwmax mx mn thr f\<rparr>"
  have "edge_at i2n p = Some (src, tgt)" using t s by (simp add: edge_at_def)
  moreover have "nxgraph net' = (nxgraph net)((src, tgt) \<mapsto> e)" using n by (simp add: e_def)
  moreover have "written Am Fm mx mn thr lwmin lwmax p e"
    unfolding written_def using f h by (auto simp: e_def)
  ultimately show ?thesis by blast
qed

lemma edges_loop_untouched:
  assumes "edges_loop Am Fm i2n mx mn thr lwmin lwmax ps net = Done net'"
    and "\<forall>p\<in>set ps. edge_at i2n p \<noteq> Some k"
  shows "nxgraph net' k = nxgraph net k"
  using assms
proof (induction ps arbitrary: net)
  case Nil
  then show ?case by simp
next
  case (Cons p ps)
  from Cons.prems(1) obtain net1 where
    step: "update_edge Am Fm i2n mx mn thr lwmin lwmax p net = Done net1" and
    rest: "edges_loop Am Fm i2n mx mn thr lwmin lwmax ps net1 = Done net'"
    by (auto split: outcome.splits)
  from update_edge_Done[OF step] obtain k' e where
    k': "edge_at i2n p = Some k'" "nxgraph net1 = (nxgraph net)(k' \<mapsto> e)" by blast
  have "k' \<noteq> k" using Cons.prems(2) k'(1) by auto
  then have "nxgraph net1 k = nxgraph net k" using k'(2) by simp
  moreover have "nxgraph net' k = nxgraph net1 k"
    using Cons.IH[OF rest] Cons.prems(2) by simp
  ultimately show ?case by simp
qed

lemma edge_at_inj:
  assumes inj: "\<And>i j s. i2n i = Some s \<Longrightarrow> i2n j = Some s \<Longrightarrow> i = j"
    and "edge_at i2n p = Some k" "edge_at i2n q = Some k"
  shows "p = q"
proof -
  from assms(2,3) have "i2n (fst p) = i2n (fst q)" "i2n (snd p) = i2n (snd q)"
    "i2n (fst p) \<noteq> None" "i2n (snd p) \<noteq> None"
    by (auto simp: edge_at_def split: option.splits)
  then have "fst p = fst q" "snd p = snd q" using inj by auto
  then show ?thesis by (simp add: prod_eq_iff)
qed

lemma edges_loop_written:
  assumes "edges_loop Am Fm i2n mx mn thr lwmin lwmax ps net = Done net'"
    and inj: "\<And>i j s. i2n i = Some s \<Longrightarrow> i2n j = Some s \<Longrightarrow> i = j"
    and "p \<in> set ps"
  shows "\<exists>k e. edge_at i2n p = Some k \<and> nxgraph net' k = Some e \<and>
           written Am Fm mx mn thr lwmin lwmax p e"
  using assms(1,3)
proof (induction ps arbitrary: net)
  case Nil
  then show ?case by simp
next
  case (Cons q ps)
  from Cons.prems(1) obtain net1 where
    step: "update_edge Am Fm i2n mx mn thr lwmin lwmax q net = Done net1" and
    rest: "edges_loop Am Fm i2n mx mn thr lwmin lwmax ps net1 = Done net'"
    by (auto split: outcome.splits)
  show ?case
  proof (cases "p \<in> set ps")
    case True
    then show ?thesis using Cons.IH[OF rest] by simp
  next
    case False
    with Cons.prems(2) have pq: "p = q" by simp
    from update_edge_Done[OF step] obtain k e where
      k: "edge_at i2n q = Some k" "nxgraph net1 = (nxgraph net)(k \<mapsto> e)"
         "written Am Fm mx mn thr lwmin lwmax q e" by blast
    have "\<forall>r\<in>set ps. edge_at i2n r \<noteq> Some k"
    proof
      fix r assume r: "r \<in> set ps"
      show "edge_at i2n r \<noteq> Some k"
      proof
        assume "edge_at i2n r = Some k"
        from edge_at_inj[OF inj this k(1)] have "r = q" by simp
        with r False pq show False by simp
      qed
    qed
    from edges_loop_untouched[OF rest this] have "nxgraph net' k = Some e" using k(2) by simp
    with k pq show ?thesis by blast
  qed
qed

lemma invert_inj:
  assumes "distinct (map fst d)"
    and "invert d i = Some s" "invert d j = Some s"
  shows "i = j"
proof -
  have mem: "\<And>k. invert d k = Some s \<Longrightarrow> (s, k) \<in> set d"
  proof -
    fix k assume "invert d k = Some s"
    then have "(k, s) \<in> set (rev (map (\<lambda>(key, val). (val, key)) d))"
      unfolding invert_def by (rule map_of_SomeD)
    then show "(s, k) \<in> set d" by auto
  qed
  from mem[OF assms(2)] mem[OF assms(3)] assms(1) show ?thesis
    by (meson eq_key_imp_eq_value)
qed

subsection \<open>The loop over the nodes\<close>

lemma update_single_label_name_node:
  assumes "update_single_label_name ev ls nd name fix_size fnt = Done (nd', ls')"
  shows "n_iden nd' = n_iden nd \<and> n_name nd' = n_name nd \<and> n_fill_color nd' = n_fill_color nd"
  using assms
  by (auto simp: update_single_label_name_def Let_def split: option.splits if_splits)

lemma node_body_Done:
  assumes "node_body ev ar cup cdn fnt ts nd ls = Done (nd', ls')"
  shows "n_iden nd' = n_iden nd \<and> n_name nd' = n_name nd \<and>
         (\<exists>idx. map_of (n2i ar) (n_iden nd) = Some idx \<and> idx < length (acts ar) \<and>
            n_fill_color nd' =
              (if acts ar ! idx > 0 then blend cup (ts ! idx) else blend cdn (ts ! idx)))"
proof -
  from assms obtain idx where idx: "map_of (n2i ar) (n_iden nd) = Some idx"
    by (auto simp: node_body_def split: option.splits)
  from assms idx have len: "idx < length (acts ar)"
    by (auto simp: node_body_def Let_def split: if_splits)
  define nd0 where "nd0 = (if \<not> fix_node_size ar then nd\<lparr>n_width := 20, n_height := 20\<rparr> else nd)"
  define nd1 where "nd1 = nd0\<lparr>n_fill_color :=
      (if acts ar ! idx > 0 then blend cup (ts ! idx) else blend cdn (ts ! idx)),
      n_border_width := 2, n_border_color := (40, 40, 40)\<rparr>"
  have nd1: "n_iden nd1 = n_iden nd" "n_name nd1 = n_name nd"
    "n_fill_color nd1 = (if acts ar ! idx > 0 then blend cup (ts ! idx) else blend cdn (ts ! idx))"
    by (simp_all add: nd1_def nd0_def)
  from assms idx len obtain nd2 ls2 where
    lab: "(if show_label ar
           then update_single_label_name ev ls nd1 (n_name nd1) (fix_node_size ar) fnt
           else Done (nd1, ls)) = Done (nd2, ls2)" and nd': "nd' = nd2"
    by (auto simp: node_body_def Let_def nd1_def nd0_def
        split: outcome.splits prod.splits if_splits option.splits)
  have "n_iden nd2 = n_iden nd1 \<and> n_name nd2 = n_name nd1 \<and> n_fill_color nd2 = n_fill_color nd1"
  proof (cases "show_label ar")
    case True
    with lab show ?thesis using update_single_label_name_node by simp
  next
    case False
    with lab show ?thesis by simp
  qed
  with nd1 nd' idx len show ?thesis by simp
qed

lemma nodes_loop_Done:
  assumes "nodes_loop ev ar cup cdn fnt ts seen todo ls = Done (ns, ls')"
  shows "\<exists>res. ns = seen @ res \<and>
           list_all2 (\<lambda>nd nd'. \<exists>l1 l2. node_body ev ar cup cdn fnt ts nd l1 = Done (nd', l2)) todo res"
  using assms
proof (induction todo arbitrary: seen ls)
  case Nil
  then show ?case by simp
next
  case (Cons nd rest)
  from Cons.prems obtain nd1 ls1 where
    step: "node_body ev ar cup cdn fnt ts nd ls = Done (nd1, ls1)" and
    rest: "nodes_loop ev ar cup cdn fnt ts (seen @ [nd1]) rest ls1 = Done (ns, ls')"
    by (auto split: outcome.splits prod.splits)
  from Cons.IH[OF rest] obtain res where
    res: "ns = (seen @ [nd1]) @ res"
      "list_all2 (\<lambda>nd nd'. \<exists>l1 l2. node_body ev ar cup cdn fnt ts nd l1 = Done (nd', l2)) rest res"
    by blast
  have "ns = seen @ (nd1 # res)" using res(1) by simp
  moreover have "list_all2 (\<lambda>nd nd'. \<exists>l1 l2. node_body ev ar cup cdn fnt ts nd l1 = Done (nd', l2))
      (nd # rest) (nd1 # res)"
    using step res(2) by auto
  ultimately show ?case by blast
qed

subsection \<open>The stages of \<^verbatim>\<open>visualize\<close>\<close>

lemma resolve_color_Inr:
  "resolve_color c dflt msg = Inr x \<longleftrightarrow>
     (c = Falsy \<and> x = dflt) \<or> (\<exists>r g b. c = QColorObj r g b \<and> x = (r, g, b))"
  by (cases c) (auto simp: resolve_color_def)

lemma visualize_Done:
  assumes "visualize ev ar net = Done net'"
  shows "\<exists>cup cdn thr ns ls.
     resolve_color (color_up ar) (255, 0, 0)
       ''color_up should be 3-dimensional np.ndarray or QtGui.QColor'' = Inr cup \<and>
     resolve_color (color_dn ar) (0, 0, 255)
       ''color_dn should be 3-dimensional np.ndarray or QtGui.QColor'' = Inr cdn \<and>
     act_thr (acts ar) (pct_act ar) = Inr thr \<and>
     nodes_loop ev ar cup cdn (case font ar of None \<Rightarrow> QFont ''Arial'' 10 | Some f \<Rightarrow> f)
       (arr_t (acts ar) thr) [] (nodes net) (labels net) = Done (ns, ls) \<and>
     update_edges (net\<lparr>nodes := ns, labels := ls\<rparr>) (A ar) (F ar) (invert (n2i ar))
       (pct_edge ar) (lw_min ar) (lw_max ar) = Done net'"
  using assms
  by (auto simp: visualize_def Let_def split: sum.splits outcome.splits prod.splits)

lemma update_edges_Done:
  assumes "update_edges net Am Fm i2n pct lwmin lwmax = Done net'"
  shows "\<exists>flow_max flow_min flow_thr.
     flow_stats Fm pct = Inr (flow_max, flow_min, flow_thr) \<and>
     edges_loop Am Fm i2n flow_max flow_min flow_thr lwmin lwmax (nonzero Am) net = Done net'"
  using assms
  by (auto simp: update_edges_def split: sum.splits prod.splits)

lemma visualize_nodes:
  assumes "visualize ev ar net = Done net'"
  shows "\<exists>cup cdn thr.
     resolve_color (color_up ar) (255, 0, 0)
       ''color_up should be 3-dimensional np.ndarray or QtGui.QColor'' = Inr cup \<and>
     resolve_color (color_dn ar) (0, 0, 255)
       ''color_dn should be 3-dimensional np.ndarray or QtGui.QColor'' = Inr cdn \<and>
     act_thr (acts ar) (pct_act ar) = Inr thr \<and>
     list_all2 (\<lambda>nd nd'. n_iden nd' = n_iden nd \<and>
         (\<exists>idx. map_of (n2i ar) (n_iden nd) = Some idx \<and> idx < length (acts ar) \<and>
            n_fill_color nd' =
              (if acts ar ! idx > 0 then blend cup (arr_t (acts ar) thr ! idx)
               else blend cdn (arr_t (acts ar) thr ! idx))))
       (nodes net) (nodes net')"
proof -
  from visualize_Done[OF assms] obtain cup cdn thr ns ls where
    c: "resolve_color (color_up ar) (255, 0, 0)
       ''color_up should be 3-dimensional np.ndarray or QtGui.QColor'' = Inr cup"
      "resolve_color (color_dn ar) (0, 0, 255)
       ''color_dn should be 3-dimensional np.ndarray or QtGui.QColor'' = Inr cdn"
      "act_thr (acts ar) (pct_act ar) = Inr thr" and
    loop: "nodes_loop ev ar cup cdn (case font ar of None \<Rightarrow> QFont ''Arial'' 10 | Some f \<Rightarrow> f)
       (arr_t (acts ar) thr) [] (nodes net) (labels net) = Done (ns, ls)" and
    edges: "update_edges (net\<lparr>nodes := ns, labels := ls\<rparr>) (A ar) (F ar) (invert (n2i ar))
       (pct_edge ar) (lw_min ar) (lw_max ar) = Done net'"
    by blast
  from update_edges_Done[OF edges] edges_loop_frame have "nodes net' = ns"
    by fastforce
  moreover from nodes_loop_Done[OF loop] have
    "list_all2 (\<lambda>nd nd'. \<exists>l1 l2. node_body ev ar cup cdn
        (case font ar of None \<Rightarrow> QFont ''Arial'' 10 | Some f \<Rightarrow> f)
        (arr_t (acts ar) thr) nd l1 = Done (nd', l2)) (nodes net) ns"
    by simp
  then have "list_all2 (\<lambda>nd nd'. n_iden nd' = n_iden nd \<and>
         (\<exists>idx. map_of (n2i ar) (n_iden nd) = Some idx \<and> idx < length (acts ar) \<and>
            n_fill_color nd' =
              (if acts ar ! idx > 0 then blend cup (arr_t (acts ar) thr ! idx)
               else blend cdn (arr_t (acts ar) thr ! idx))))
       (nodes net) ns"
    by (rule list_all2_mono) (use node_body_Done in blast)
  ultimately show ?thesis using c by blast
qed

subsection \<open>What \<^verbatim>\<open>visualize\<close> leaves on an edge\<close>

lemma nonzero_iff:
  "p \<in> set (nonzero M) \<longleftrightarrow>
     fst p < length M \<and> snd p < length (M ! fst p) \<and> is_nonzero (M ! fst p ! snd p)"
  by (cases p) (auto simp: nonzero_def)

lemma nonzero_mat_get:
  assumes "p \<in> set (nonzero M)"
  shows "\<exists>a. mat_get M (fst p) (snd p) = Some a \<and> is_nonzero a"
  using assms by (simp add: nonzero_iff mat_get_def)

lemma visualize_edges:
  assumes "visualize ev ar net = Done net'"
    and "distinct (map fst (n2i ar))"
    and "p \<in> set (nonzero (A ar))"
  shows "\<exists>flow_max flow_min flow_thr k e.
     flow_stats (F ar) (pct_edge ar) = Inr (flow_max, flow_min, flow_thr) \<and>
     edge_at (invert (n2i ar)) p = Some k \<and> nxgraph net' k = Some e \<and>
     written (A ar) (F ar) flow_max flow_min flow_thr (lw_min ar) (lw_max ar) p e"
proof -
  from visualize_Done[OF assms(1)] obtain ns ls where
    "update_edges (net\<lparr>nodes := ns, labels := ls\<rparr>) (A ar) (F ar) (invert (n2i ar))
       (pct_edge ar) (lw_min ar) (lw_max ar) = Done net'"
    by blast
  from update_edges_Done[OF this] obtain flow_max flow_min flow_thr where
    st: "flow_stats (F ar) (pct_edge ar) = Inr (flow_max, flow_min, flow_thr)" and
    loop: "edges_loop (A ar) (F ar) (invert (n2i ar)) flow_max flow_min flow_thr
             (lw_min ar) (lw_max ar) (nonzero (A ar)) (net\<lparr>nodes := ns, labels := ls\<rparr>) = Done net'"
    by blast
  have inj: "\<And>i j s. invert (n2i ar) i = Some s \<Longrightarrow> invert (n2i ar) j = Some s \<Longrightarrow> i = j"
    using invert_inj[OF assms(2)] by blast
  have "\<exists>k e. edge_at (invert (n2i ar)) p = Some k \<and> nxgraph net' k = Some e \<and>
           written (A ar) (F ar) flow_max flow_min flow_thr (lw_min ar) (lw_max ar) p e"
    by (rule edges_loop_written[OF loop _ assms(3)]) (rule inj)
  with st show ?thesis by blast
qed

lemma choose_head_class:
  assumes "choose_head h f Am i j = Inr (h', c)" and "mat_get Am i j = Some a"
  shows "h_class h' =
     (if f > 0 then PosHead else if f < 0 then NegHead
      else if gt_zero a then PosHead else NegHead) \<and>
     (f = 0 \<longrightarrow> gt_zero a \<or> lt_zero a)"
  using assms by (auto simp: choose_head_def split: if_splits)

lemma edge_width_monotone:
  assumes "lwmin \<le> lwmax" and "flow_min \<le> flow_max"
    and "log 10 \<bar>f1\<bar> \<le> log 10 \<bar>f2\<bar>" and "f1 \<noteq> 0" and "f2 \<noteq> 0"
  shows "edge_width lwmin lwmax flow_max flow_min flow_thr f1 \<le>
         edge_width lwmin lwmax flow_max flow_min flow_thr f2"
proof (cases "flow_max - flow_min = 0")
  case True
  then show ?thesis using assms by (simp add: edge_width_def)
next
  case False
  then have d: "0 < flow_max - flow_min" using assms(2) by simp
  have "clip (log 10 \<bar>f1\<bar>) flow_min flow_thr - flow_min \<le>
        clip (log 10 \<bar>f2\<bar>) flow_min flow_thr - flow_min"
    using clip_mono[OF assms(3)] by simp
  then have "(clip (log 10 \<bar>f1\<bar>) flow_min flow_thr - flow_min) / (flow_max - flow_min) \<le>
        (clip (log 10 \<bar>f2\<bar>) flow_min flow_thr - flow_min) / (flow_max - flow_min)"
    using d by (simp add: divide_right_mono)
  then have "(clip (log 10 \<bar>f1\<bar>) flow_min flow_thr - flow_min) / (flow_max - flow_min) * (lwmax - lwmin) \<le>
        (clip (log 10 \<bar>f2\<bar>) flow_min flow_thr - flow_min) / (flow_max - flow_min) * (lwmax - lwmin)"
    using assms(1) by (intro mult_right_mono) auto
  then show ?thesis using False assms(4,5) by (simp add: edge_width_def Let_def)
qed

lemma edge_width_clamped:
  assumes "flow_min \<le> flow_thr" and "flow_thr \<le> log 10 \<bar>f\<bar>" and "f \<noteq> 0"
  shows "edge_width lwmin lwmax flow_max flow_min flow_thr f =
         edge_width lwmin lwmax flow_max flow_min flow_thr (10 powr flow_thr)"
proof -
  have nz: "(10::real) powr flow_thr \<noteq> 0" by simp
  have lg: "log 10 \<bar>10 powr flow_thr\<bar> = flow_thr" by simp
  have "clip (log 10 \<bar>f\<bar>) flow_min flow_thr = flow_thr"
    using assms by (simp add: clip_def)
  moreover have "clip flow_thr flow_min flow_thr = flow_thr"
    using assms by (simp add: clip_def)
  ultimately show ?thesis using nz lg assms(3) by (simp add: edge_width_def Let_def del: powr_gt_zero)
qed


subsection \<open>The claims on errors\<close>

text \<open>
  C8. If \<open>color_up\<close> or \<open>color_dn\<close> is a truthy value that is not a colour object,
  \<^verbatim>\<open>visualize\<close> raises the ValueError before it has mutated anything: the network that
  the exception leaves behind is the network the call was given.
\<close>

theorem invalid_color_atomic:
  assumes "color_up ar = OtherValue \<or> color_dn ar = OtherValue"
  shows "\<exists>msg. visualize ev ar net = Raised (ValueError msg) net"
proof (cases "color_up ar")
  case Falsy
  with assms show ?thesis by (simp add: visualize_def resolve_color_def)
next
  case (QColorObj r g b)
  with assms show ?thesis by (simp add: visualize_def resolve_color_def)
next
  case OtherValue
  then show ?thesis by (simp add: visualize_def resolve_color_def)
qed

theorem invalid_color_atomic_witness:
  "(color_up (ex_args\<lparr>color_dn := OtherValue\<rparr>) = OtherValue \<or>
    color_dn (ex_args\<lparr>color_dn := OtherValue\<rparr>) = OtherValue) \<and>
   (\<exists>msg. visualize ex_env (ex_args\<lparr>color_dn := OtherValue\<rparr>) ex_net =
      Raised (ValueError msg) ex_net)"
  using invalid_color_atomic[of "ex_args\<lparr>color_dn := OtherValue\<rparr>" ex_env ex_net]
  by simp

subsection \<open>The model on the concrete network\<close>

lemmas ev_defs = resolve_color_def act_thr_def percentile_def arr_t_def clip_def
  node_body_def blend_def int32_def update_single_label_name_def update_single_label_activity_def
  place_act_label_def add_label_def remove_label_def act_iden_def upper_def upper_char_def
  format_d_def str_of_int_def invert_def update_edges_def flow_stats_def log_flows_def
  nonzero_entries_def nonzero_def update_edge_def choose_head_def mat_get_def edge_width_def
  is_nonzero_def gt_zero_def lt_zero_def
  ex_env_def ex_args_def ex_net_def ex_node_def ex_label_def ex_edge_def

lemma Done_state_of: "r = Done s \<Longrightarrow> r = Done (state_of r)"
  by (simp add: state_of_def)

lemma ex_run: "visualize ex_env ex_args ex_net = Done (state_of (visualize ex_env ex_args ex_net))"
proof -
  have "\<exists>net'. visualize ex_env ex_args ex_net = Done net'"
    by (simp add: visualize_def ev_defs Let_def)
  then obtain net' where "visualize ex_env ex_args ex_net = Done net'" ..
  then show ?thesis by (rule Done_state_of)
qed

lemma ex_distinct: "distinct (map fst (n2i ex_args))"
  by (simp add: ex_args_def)

lemma ex_nonzero: "nonzero (A ex_args) = [(0, 1), (1, 0)]"
  by (simp add: nonzero_def is_nonzero_def ex_args_def)

lemma ex_stats: "flow_stats (F ex_args) (pct_edge ex_args) = Inr (1, 0, 0.9)"
  by (simp add: ev_defs)


text \<open>
  C9. If every entry of the flow matrix is zero, the edge pass fails at once, on the
  maximum of an empty array, with the network untouched by it, and \<^verbatim>\<open>visualize\<close> never
  completes; this holds whatever the adjacency matrix is, in particular when it has a
  nonzero entry.
\<close>

theorem all_zero_flow_fails:
  assumes "\<forall>row\<in>set (F ar). \<forall>x\<in>set row. x = 0"
  shows "(\<forall>net'. visualize ev ar net \<noteq> Done net') \<and>
         update_edges net0 Am (F ar) i2n pct lwmin lwmax =
           Raised (ValueError
             ''zero-size array to reduction operation maximum which has no identity'') net0"
proof -
  have "nonzero_entries (F ar) = []"
    using assms by (auto simp: nonzero_entries_def filter_empty_conv)
  then have st: "\<And>q. flow_stats (F ar) q = Inl (ValueError
             ''zero-size array to reduction operation maximum which has no identity'')"
    by (simp add: flow_stats_def log_flows_def)
  have "\<And>net'. visualize ev ar net \<noteq> Done net'"
  proof
    fix net' assume "visualize ev ar net = Done net'"
    from visualize_Done[OF this] obtain ns ls where
      "update_edges (net\<lparr>nodes := ns, labels := ls\<rparr>) (A ar) (F ar) (invert (n2i ar))
       (pct_edge ar) (lw_min ar) (lw_max ar) = Done net'"
      by blast
    from update_edges_Done[OF this] st show False by simp
  qed
  moreover have "update_edges net0 Am (F ar) i2n pct lwmin lwmax =
           Raised (ValueError
             ''zero-size array to reduction operation maximum which has no identity'') net0"
    using st by (simp add: update_edges_def)
  ultimately show ?thesis by blast
qed

theorem all_zero_flow_fails_witness:
  "F (ex_args\<lparr>F := [[0, 0], [0, 0]]\<rparr>) = [[0, 0], [0, 0]] \<and>
   (1, 0) \<in> set (nonzero (A (ex_args\<lparr>F := [[0, 0], [0, 0]]\<rparr>))) \<and>
   (\<forall>net'. visualize ex_env (ex_args\<lparr>F := [[0, 0], [0, 0]]\<rparr>) ex_net \<noteq> Done net') \<and>
   update_edges ex_net (A ex_args) (F (ex_args\<lparr>F := [[0, 0], [0, 0]]\<rparr>))
       (invert (n2i ex_args)) 90 1 10 =
     Raised (ValueError
       ''zero-size array to reduction operation maximum which has no identity'') ex_net"
proof -
  have h: "\<forall>row\<in>set (F (ex_args\<lparr>F := [[0, 0], [0, 0]]\<rparr>)). \<forall>x\<in>set row. x = 0"
    by simp
  have p: "(1, 0) \<in> set (nonzero (A (ex_args\<lparr>F := [[0, 0], [0, 0]]\<rparr>)))"
    by (simp add: ex_nonzero)
  note c = all_zero_flow_fails[OF h, where ev = ex_env and net = ex_net and ?net0.0 = ex_net
      and Am = "A ex_args" and i2n = "invert (n2i ex_args)" and pct = 90 and lwmin = 1
      and lwmax = 10]
  have f: "F (ex_args\<lparr>F := [[0, 0], [0, 0]]\<rparr>) = [[0, 0], [0, 0]]" by simp
  show ?thesis by (rule conjI[OF f conjI[OF p c]])
qed

subsection \<open>The claims on the fill colour of the nodes\<close>


lemma blend_zero: "blend c 0 = (255, 255, 255)"
  by (cases c) (simp add: blend_def int32_def)



lemma act_thr_flat:
  assumes "act_thr as pct = Inr thr" and "\<forall>a\<in>set as. a = 0"
  shows "thr = 1"
proof -
  from assms(1) obtain p where p: "percentile (map abs as) pct = Inr p"
    and thr: "thr = (if p = 0 then 1 else p)"
    by (auto simp: act_thr_def split: sum.splits)
  from percentile_Inr[OF p] have ne: "as \<noteq> []" by simp
  then have "set (map abs as) = {0}" using assms(2) by (cases as) auto
  with percentile_bounds[OF p] have "p = 0" by simp
  with thr show ?thesis by simp
qed


text \<open>
  C4. If every entry of \<open>acts\<close> is zero and \<^verbatim>\<open>visualize\<close> completes, the threshold is
  \<open>1\<close> (the percentile \<open>0\<close> is replaced), every interpolation factor is \<open>0\<close>, and every
  node is filled with pure white.
\<close>

theorem zero_activity_white:
  assumes "visualize ev ar net = Done net'" and "\<forall>a\<in>set (acts ar). a = 0"
  shows "act_thr (acts ar) (pct_act ar) = Inr 1 \<and>
         (\<forall>t\<in>set (arr_t (acts ar) 1). t = 0) \<and>
         (\<forall>nd\<in>set (nodes net'). n_fill_color nd = (255, 255, 255))"
proof -
  from visualize_nodes[OF assms(1)] obtain cup cdn thr where
    thr: "act_thr (acts ar) (pct_act ar) = Inr thr" and
    all: "list_all2 (\<lambda>nd nd'. n_iden nd' = n_iden nd \<and>
         (\<exists>idx. map_of (n2i ar) (n_iden nd) = Some idx \<and> idx < length (acts ar) \<and>
            n_fill_color nd' =
              (if acts ar ! idx > 0 then blend cup (arr_t (acts ar) thr ! idx)
               else blend cdn (arr_t (acts ar) thr ! idx))))
       (nodes net) (nodes net')"
    by blast
  have one: "thr = 1" using act_thr_flat[OF thr assms(2)] .
  have zero: "\<forall>t\<in>set (arr_t (acts ar) 1). t = 0"
    using assms(2) by (auto simp: arr_t_def clip_def)
  have white: "\<forall>nd\<in>set (nodes net'). n_fill_color nd = (255, 255, 255)"
  proof
    fix nd' assume "nd' \<in> set (nodes net')"
    then obtain k where k: "k < length (nodes net')" "nodes net' ! k = nd'"
      by (auto simp: in_set_conv_nth)
    from list_all2_lengthD[OF all] k(1) have k': "k < length (nodes net)" by simp
    from list_all2_nthD[OF all k'] k(2) obtain idx where
      idx: "idx < length (acts ar)" and
      fill: "n_fill_color nd' =
              (if acts ar ! idx > 0 then blend cup (arr_t (acts ar) thr ! idx)
               else blend cdn (arr_t (acts ar) thr ! idx))"
      by auto
    have "arr_t (acts ar) thr ! idx = 0"
      using zero idx one by (simp add: arr_t_def)
    with fill show "n_fill_color nd' = (255, 255, 255)" by (simp add: blend_zero)
  qed
  from thr one zero white show ?thesis by simp
qed

lemma ex_run_flat:
  "visualize ex_env ex_args_flat ex_net = Done (state_of (visualize ex_env ex_args_flat ex_net))"
proof -
  have "\<exists>net'. visualize ex_env ex_args_flat ex_net = Done net'"
    by (simp add: visualize_def ev_defs ex_args_flat_def Let_def)
  then obtain net' where "visualize ex_env ex_args_flat ex_net = Done net'" ..
  then show ?thesis by (rule Done_state_of)
qed


theorem zero_activity_white_witness:
  "visualize ex_env ex_args_flat ex_net =
     Done (state_of (visualize ex_env ex_args_flat ex_net)) \<and>
   acts ex_args_flat = [0, 0] \<and>
   act_thr (acts ex_args_flat) (pct_act ex_args_flat) = Inr 1 \<and>
   arr_t (acts ex_args_flat) 1 = [0, 0] \<and>
   map n_fill_color (nodes (state_of (visualize ex_env ex_args_flat ex_net))) =
     [(255, 255, 255), (255, 255, 255)]"
proof -
  have a: "acts ex_args_flat = [0, 0]" by (simp add: ex_args_flat_def)
  have h: "\<forall>a\<in>set (acts ex_args_flat). a = 0" by (simp add: a)
  note c = zero_activity_white[OF ex_run_flat h]
  have n: "length (nodes (state_of (visualize ex_env ex_args_flat ex_net))) = 2"
    by (simp add: state_of_def visualize_def ev_defs ex_args_flat_def Let_def)
  have t: "arr_t (acts ex_args_flat) 1 = [0, 0]" by (simp add: a arr_t_def clip_def)
  from c have w: "\<forall>nd\<in>set (nodes (state_of (visualize ex_env ex_args_flat ex_net))).
      n_fill_color nd = (255, 255, 255)" by (rule conjunct2[THEN conjunct2])
  have m: "map n_fill_color (nodes (state_of (visualize ex_env ex_args_flat ex_net))) =
     [(255, 255, 255), (255, 255, 255)]"
  proof (rule nth_equalityI)
    show "length (map n_fill_color (nodes (state_of (visualize ex_env ex_args_flat ex_net)))) =
      length [(255, 255, 255), (255, 255, 255) :: rgb]" using n by simp
  next
    fix i assume "i < length (map n_fill_color (nodes (state_of (visualize ex_env ex_args_flat ex_net))))"
    then have i: "i < 2" using n by simp
    then have "nodes (state_of (visualize ex_env ex_args_flat ex_net)) ! i
        \<in> set (nodes (state_of (visualize ex_env ex_args_flat ex_net)))"
      using n by simp
    with w have "n_fill_color (nodes (state_of (visualize ex_env ex_args_flat ex_net)) ! i) =
        (255, 255, 255)" by blast
    moreover have "[(255, 255, 255), (255, 255, 255) :: rgb] ! i = (255, 255, 255)"
      using i by (cases i) auto
    ultimately show "map n_fill_color (nodes (state_of (visualize ex_env ex_args_flat ex_net))) ! i =
      [(255, 255, 255), (255, 255, 255)] ! i" using i n by simp
  qed
  show ?thesis by (rule conjI[OF ex_run_flat conjI[OF a conjI[OF c[THEN conjunct1] conjI[OF t m]]]])
qed

subsection \<open>The claim on the monotonicity of the width\<close>

lemma log10_100: "log 10 100 = 2"
  using log_pow_cancel[of 10 2] by simp

lemma ex_stats_100: "flow_stats (F ex_args) 100 = Inr (1, 0, 1)"
  by (simp add: ev_defs)

text \<open>
  C6, as the code has it. Whenever \<open>lw_min \<le> lw_max\<close>, the width is a non-decreasing
  function of \<open>log10 |f|\<close> on \<open>[flow_min, flow_thr]\<close>. Above \<open>flow_thr\<close> it is the
  width taken at \<open>flow_thr\<close>, whatever the two bounds of the width are. The statistics
  are those of any flow matrix on which lines 27 to 30 succeed.
\<close>

theorem edge_width_monotone_clamped:
  assumes "flow_stats Fm pct = Inr (flow_max, flow_min, flow_thr)"
  shows "(lwmin \<le> lwmax \<and> f1 \<noteq> 0 \<and> f2 \<noteq> 0 \<and> flow_min \<le> log 10 \<bar>f1\<bar> \<and>
          log 10 \<bar>f1\<bar> \<le> log 10 \<bar>f2\<bar> \<and> log 10 \<bar>f2\<bar> \<le> flow_thr
            \<longrightarrow> edge_width lwmin lwmax flow_max flow_min flow_thr f1 \<le>
                edge_width lwmin lwmax flow_max flow_min flow_thr f2) \<and>
         (f \<noteq> 0 \<and> flow_thr \<le> log 10 \<bar>f\<bar>
            \<longrightarrow> edge_width lo hi flow_max flow_min flow_thr f =
                edge_width lo hi flow_max flow_min flow_thr (10 powr flow_thr))"
proof -
  from flow_stats_order[OF assms] have o: "flow_min \<le> flow_thr" "flow_thr \<le> flow_max"
    by simp_all
  then have mm: "flow_min \<le> flow_max" by simp
  have mono: "lwmin \<le> lwmax \<and> f1 \<noteq> 0 \<and> f2 \<noteq> 0 \<and> flow_min \<le> log 10 \<bar>f1\<bar> \<and>
          log 10 \<bar>f1\<bar> \<le> log 10 \<bar>f2\<bar> \<and> log 10 \<bar>f2\<bar> \<le> flow_thr
            \<longrightarrow> edge_width lwmin lwmax flow_max flow_min flow_thr f1 \<le>
                edge_width lwmin lwmax flow_max flow_min flow_thr f2"
  proof
    assume h: "lwmin \<le> lwmax \<and> f1 \<noteq> 0 \<and> f2 \<noteq> 0 \<and> flow_min \<le> log 10 \<bar>f1\<bar> \<and>
          log 10 \<bar>f1\<bar> \<le> log 10 \<bar>f2\<bar> \<and> log 10 \<bar>f2\<bar> \<le> flow_thr"
    then have "lwmin \<le> lwmax" "log 10 \<bar>f1\<bar> \<le> log 10 \<bar>f2\<bar>" "f1 \<noteq> 0" "f2 \<noteq> 0"
      by blast+
    from edge_width_monotone[OF this(1) mm this(2,3,4)]
    show "edge_width lwmin lwmax flow_max flow_min flow_thr f1 \<le>
                edge_width lwmin lwmax flow_max flow_min flow_thr f2" .
  qed
  have clamp: "f \<noteq> 0 \<and> flow_thr \<le> log 10 \<bar>f\<bar>
            \<longrightarrow> edge_width lo hi flow_max flow_min flow_thr f =
                edge_width lo hi flow_max flow_min flow_thr (10 powr flow_thr)"
  proof
    assume "f \<noteq> 0 \<and> flow_thr \<le> log 10 \<bar>f\<bar>"
    then have "flow_thr \<le> log 10 \<bar>f\<bar>" "f \<noteq> 0" by blast+
    from edge_width_clamped[OF o(1) this]
    show "edge_width lo hi flow_max flow_min flow_thr f =
                edge_width lo hi flow_max flow_min flow_thr (10 powr flow_thr)" .
  qed
  from mono clamp show ?thesis by (rule conjI)
qed

theorem edge_width_monotone_clamped_witness:
  "flow_stats (F ex_args) 100 = Inr (1, 0, 1) \<and>
   ((1::real) \<le> 10 \<and> (1::real) \<noteq> 0 \<and> (10::real) \<noteq> 0 \<and> 0 \<le> log 10 \<bar>1\<bar> \<and>
      log 10 \<bar>1\<bar> \<le> log 10 \<bar>10\<bar> \<and> log 10 \<bar>10\<bar> \<le> 1) \<and>
   edge_width 1 10 1 0 1 1 \<le> edge_width 1 10 1 0 1 10 \<and>
   ((100::real) \<noteq> 0 \<and> 1 \<le> log 10 \<bar>100\<bar>) \<and>
   edge_width 10 1 1 0 1 100 = edge_width 10 1 1 0 1 (10 powr 1)"
proof -
  have h1: "(1::real) \<le> 10 \<and> (1::real) \<noteq> 0 \<and> (10::real) \<noteq> 0 \<and> 0 \<le> log 10 \<bar>1\<bar> \<and>
      log 10 \<bar>1\<bar> \<le> log 10 \<bar>10\<bar> \<and> log 10 \<bar>10\<bar> \<le> 1" by simp
  have h2: "(100::real) \<noteq> 0 \<and> 1 \<le> log 10 \<bar>100\<bar>" by (simp add: log10_100)
  note t = edge_width_monotone_clamped[OF ex_stats_100, where lwmin = 1 and lwmax = 10
      and ?f1.0 = 1 and ?f2.0 = 10 and f = 100 and lo = 10 and hi = 1]
  note c1 = t[THEN conjunct1, THEN mp, OF h1]
  note c2 = t[THEN conjunct2, THEN mp, OF h2]
  show ?thesis by (rule conjI[OF ex_stats_100 conjI[OF h1 conjI[OF c1 conjI[OF h2 c2]]]])
qed

text \<open>
  C6 as stated fails when the caller passes \<open>lw_min > lw_max\<close>, which nothing rejects:
  with \<open>lw_min = 10\<close>, \<open>lw_max = 1\<close> and \<open>pct_edge = 100\<close> the flows \<open>1\<close> and \<open>10\<close> have
  their logarithms \<open>0 \<le> 1\<close> in \<open>[flow_min, flow_thr] = [0, 1]\<close>, and \<^verbatim>\<open>visualize\<close>
  gives the edge of the smaller flow the width \<open>10\<close> and the edge of the larger one the
  width \<open>1\<close>.
\<close>

theorem edge_width_monotone_counterexample:
  "visualize ex_env ex_args_swapped ex_net =
     Done (state_of (visualize ex_env ex_args_swapped ex_net)) \<and>
   flow_stats (F ex_args_swapped) (pct_edge ex_args_swapped) = Inr (1, 0, 1) \<and>
   mat_get (F ex_args_swapped) 1 0 = Some 1 \<and> mat_get (F ex_args_swapped) 0 1 = Some 10 \<and>
   0 \<le> log 10 \<bar>1\<bar> \<and> log 10 \<bar>1\<bar> \<le> log 10 \<bar>10\<bar> \<and> log 10 \<bar>10\<bar> \<le> 1 \<and>
   map_option e_width (nxgraph (state_of (visualize ex_env ex_args_swapped ex_net))
     (''a'', ''b'')) = Some 10 \<and>
   map_option e_width (nxgraph (state_of (visualize ex_env ex_args_swapped ex_net))
     (''b'', ''a'')) = Some 1"
proof -
  have r: "\<exists>net'. visualize ex_env ex_args_swapped ex_net = Done net'"
    by (simp add: visualize_def ev_defs ex_args_swapped_def Let_def)
  then obtain net' where "visualize ex_env ex_args_swapped ex_net = Done net'" ..
  then have r': "visualize ex_env ex_args_swapped ex_net =
     Done (state_of (visualize ex_env ex_args_swapped ex_net))" by (rule Done_state_of)
  have s: "flow_stats (F ex_args_swapped) (pct_edge ex_args_swapped) = Inr (1, 0, 1)"
    by (simp add: ev_defs ex_args_swapped_def)
  have m: "mat_get (F ex_args_swapped) 1 0 = Some 1 \<and> mat_get (F ex_args_swapped) 0 1 = Some 10"
    by (simp add: mat_get_def ex_args_def ex_args_swapped_def)
  have g: "0 \<le> log 10 \<bar>1::real\<bar> \<and> log 10 \<bar>1::real\<bar> \<le> log 10 \<bar>10\<bar> \<and> log 10 \<bar>10::real\<bar> \<le> 1"
    by simp
  have w1: "map_option e_width (nxgraph (state_of (visualize ex_env ex_args_swapped ex_net))
     (''a'', ''b'')) = Some 10"
    by (simp add: state_of_def visualize_def ev_defs ex_args_swapped_def Let_def)
  have w2: "map_option e_width (nxgraph (state_of (visualize ex_env ex_args_swapped ex_net))
     (''b'', ''a'')) = Some 1"
    by (simp add: state_of_def visualize_def ev_defs ex_args_swapped_def Let_def)
  from r' s m g w1 w2 show ?thesis by simp
qed

subsection \<open>The claim on the range of the width\<close>




subsection \<open>Rounding to a double\<close>













subsection \<open>The RuntimeError of the edge pass\<close>

lemma visualize_split:
  "visualize ev ar net =
     (case node_pass ev ar net of
        Raised e s \<Rightarrow> Raised e s
      | Done net1 \<Rightarrow> update_edges net1 (A ar) (F ar) (invert (n2i ar))
                       (pct_edge ar) (lw_min ar) (lw_max ar))"
  by (simp add: visualize_def node_pass_def Let_def split: sum.splits outcome.splits prod.splits)

lemma node_pass_nxgraph:
  assumes "node_pass ev ar net = Done net1"
  shows "nxgraph net1 = nxgraph net"
  using assms
  by (auto simp: node_pass_def Let_def split: sum.splits outcome.splits prod.splits)

lemma lookups_ok_upd:
  assumes "lookups_ok i2n Fm g r"
  shows "lookups_ok i2n Fm (g(k \<mapsto> v)) r"
proof -
  from assms obtain tgt src e f where
    l: "i2n (fst r) = Some tgt" "i2n (snd r) = Some src" "g (src, tgt) = Some e"
       "mat_get Fm (fst r) (snd r) = Some f"
    unfolding lookups_ok_def by blast
  have "\<exists>e'. (g(k \<mapsto> v)) (src, tgt) = Some e'" using l(3) by simp
  then obtain e' where "(g(k \<mapsto> v)) (src, tgt) = Some e'" ..
  with l(1,2,4) show ?thesis unfolding lookups_ok_def by blast
qed

lemma update_edge_bad:
  assumes "mat_get Fm (fst q) (snd q) = Some 0" and "mat_get Am (fst q) (snd q) = Some a0"
    and "\<not> gt_zero a0" and "\<not> lt_zero a0"
  shows "update_edge Am Fm i2n mx mn thr lwmin lwmax q net \<noteq> Done net'"
  using assms
  by (auto simp: update_edge_def choose_head_def split: option.splits sum.splits prod.splits)

lemma update_edge_cases:
  assumes "lookups_ok i2n Fm (nxgraph net) r" and "mat_get Am (fst r) (snd r) = Some a"
  shows "(\<exists>k v. update_edge Am Fm i2n mx mn thr lwmin lwmax r net =
            Done (net\<lparr>nxgraph := (nxgraph net)(k \<mapsto> v)\<rparr>)) \<or>
         update_edge Am Fm i2n mx mn thr lwmin lwmax r net =
            Raised (RuntimeError ''The logic is abnormal.'') net"
proof -
  from assms(1) obtain tgt src e f where
    l: "i2n (fst r) = Some tgt" "i2n (snd r) = Some src" "nxgraph net (src, tgt) = Some e"
       "mat_get Fm (fst r) (snd r) = Some f"
    unfolding lookups_ok_def by blast
  show ?thesis
  proof (cases "choose_head (e_head e) f Am (fst r) (snd r)")
    case (Inl err)
    then have "err = RuntimeError ''The logic is abnormal.''"
      using assms(2) by (auto simp: choose_head_def split: if_splits)
    with Inl l show ?thesis by (simp add: update_edge_def)
  next
    case (Inr hc)
    obtain h c where "hc = (h, c)" by (cases hc)
    with Inr l have "update_edge Am Fm i2n mx mn thr lwmin lwmax r net =
        Done (net\<lparr>nxgraph := (nxgraph net)((src, tgt) \<mapsto>
            e\<lparr>e_head := h, e_fill_color := c,
              e_width := edge_width lwmin lwmax mx mn thr f\<rparr>)\<rparr>)"
      by (simp add: update_edge_def)
    then show ?thesis by blast
  qed
qed

lemma edges_loop_bad_not_Done:
  assumes "q \<in> set ps"
    and "mat_get Fm (fst q) (snd q) = Some 0" and "mat_get Am (fst q) (snd q) = Some a0"
    and "\<not> gt_zero a0" and "\<not> lt_zero a0"
  shows "edges_loop Am Fm i2n mx mn thr lwmin lwmax ps net \<noteq> Done net'"
  using assms(1)
proof (induction ps arbitrary: net)
  case Nil
  then show ?case by simp
next
  case (Cons r rs)
  show ?case
  proof (cases "update_edge Am Fm i2n mx mn thr lwmin lwmax r net")
    case (Raised e s)
    then show ?thesis by simp
  next
    case (Done net1)
    then have "r \<noteq> q" using update_edge_bad[OF assms(2-5)] by auto
    with Cons.prems have "q \<in> set rs" by simp
    from Cons.IH[OF this] Done show ?thesis by simp
  qed
qed

lemma edges_loop_abnormal:
  assumes "q \<in> set ps"
    and "mat_get Fm (fst q) (snd q) = Some 0" and "mat_get Am (fst q) (snd q) = Some a0"
    and "\<not> gt_zero a0" and "\<not> lt_zero a0"
    and "\<forall>r\<in>set ps. lookups_ok i2n Fm (nxgraph net) r \<and> mat_get Am (fst r) (snd r) \<noteq> None"
  shows "\<exists>s. edges_loop Am Fm i2n mx mn thr lwmin lwmax ps net =
           Raised (RuntimeError ''The logic is abnormal.'') s"
  using assms(1,6)
proof (induction ps arbitrary: net)
  case Nil
  then show ?case by simp
next
  case (Cons r rs)
  from Cons.prems(2) obtain a where
    r: "lookups_ok i2n Fm (nxgraph net) r" "mat_get Am (fst r) (snd r) = Some a"
    by auto
  from update_edge_cases[OF r, of mx mn thr lwmin lwmax]
  show ?case
  proof
    assume "\<exists>k v. update_edge Am Fm i2n mx mn thr lwmin lwmax r net =
            Done (net\<lparr>nxgraph := (nxgraph net)(k \<mapsto> v)\<rparr>)"
    then obtain k v where
      d: "update_edge Am Fm i2n mx mn thr lwmin lwmax r net =
            Done (net\<lparr>nxgraph := (nxgraph net)(k \<mapsto> v)\<rparr>)" by blast
    then have "r \<noteq> q" using update_edge_bad[OF assms(2-5)] by auto
    with Cons.prems(1) have q: "q \<in> set rs" by simp
    have "\<forall>r\<in>set rs. lookups_ok i2n Fm (nxgraph (net\<lparr>nxgraph := (nxgraph net)(k \<mapsto> v)\<rparr>)) r \<and>
        mat_get Am (fst r) (snd r) \<noteq> None"
      using Cons.prems(2) lookups_ok_upd by simp
    from Cons.IH[OF q this] d show ?thesis by simp
  next
    assume "update_edge Am Fm i2n mx mn thr lwmin lwmax r net =
            Raised (RuntimeError ''The logic is abnormal.'') net"
    then show ?thesis by simp
  qed
qed

text \<open>
  C2. When \<^verbatim>\<open>visualize\<close> completes, the edge of every nonzero position of \<open>A\<close> carries
  the positive arrowhead if the flow \<open>f\<close> there is positive, the negative one if \<open>f\<close> is
  negative, and for \<open>f = 0\<close> the arrowhead of the sign of the adjacency entry, which then
  has a sign. When a nonzero position of \<open>A\<close> has the flow zero and an adjacency entry
  that is neither positive nor negative, \<^verbatim>\<open>visualize\<close> never completes; and when the
  pass over the nodes completes, the flow statistics exist and the network has the edge
  of every nonzero position, \<^verbatim>\<open>visualize\<close> ends in the RuntimeError of line 54, which
  nothing catches.
\<close>

theorem arrowhead_polarity:
  "(visualize ev ar net = Done net' \<and> distinct (map fst (n2i ar)) \<and> p \<in> set (nonzero (A ar))
      \<longrightarrow> (\<exists>k e f a.
             edge_at (invert (n2i ar)) p = Some k \<and> nxgraph net' k = Some e \<and>
             mat_get (F ar) (fst p) (snd p) = Some f \<and> mat_get (A ar) (fst p) (snd p) = Some a \<and>
             h_class (e_head e) =
               (if f > 0 then PosHead else if f < 0 then NegHead
                else if gt_zero a then PosHead else NegHead) \<and>
             (f = 0 \<longrightarrow> gt_zero a \<or> lt_zero a))) \<and>
   (q \<in> set (nonzero (A ar)) \<and> mat_get (F ar) (fst q) (snd q) = Some 0 \<and>
    mat_get (A ar) (fst q) (snd q) = Some a0 \<and> \<not> gt_zero a0 \<and> \<not> lt_zero a0
      \<longrightarrow> (\<forall>net''. visualize ev ar net \<noteq> Done net'') \<and>
          (node_pass ev ar net = Done net1 \<and>
           flow_stats (F ar) (pct_edge ar) = Inr st \<and>
           (\<forall>r\<in>set (nonzero (A ar)). lookups_ok (invert (n2i ar)) (F ar) (nxgraph net) r)
             \<longrightarrow> (\<exists>s. visualize ev ar net =
                        Raised (RuntimeError ''The logic is abnormal.'') s)))"
proof (intro conjI impI)
  assume h: "visualize ev ar net = Done net' \<and> distinct (map fst (n2i ar)) \<and>
             p \<in> set (nonzero (A ar))"
  then have d: "visualize ev ar net = Done net'" "distinct (map fst (n2i ar))"
    "p \<in> set (nonzero (A ar))" by simp_all
  from visualize_edges[OF d] obtain flow_max flow_min flow_thr k e where
    k: "edge_at (invert (n2i ar)) p = Some k" "nxgraph net' k = Some e" and
    w: "written (A ar) (F ar) flow_max flow_min flow_thr (lw_min ar) (lw_max ar) p e"
    by blast
  from w obtain f h0 where f: "mat_get (F ar) (fst p) (snd p) = Some f" and
    ch: "choose_head h0 f (A ar) (fst p) (snd p) = Inr (e_head e, e_fill_color e)"
    by (auto simp: written_def)
  from nonzero_mat_get[OF d(3)] obtain a where a: "mat_get (A ar) (fst p) (snd p) = Some a"
    by blast
  from choose_head_class[OF ch a] k f a
  show "\<exists>k e f a.
       edge_at (invert (n2i ar)) p = Some k \<and> nxgraph net' k = Some e \<and>
       mat_get (F ar) (fst p) (snd p) = Some f \<and> mat_get (A ar) (fst p) (snd p) = Some a \<and>
       h_class (e_head e) =
         (if f > 0 then PosHead else if f < 0 then NegHead
          else if gt_zero a then PosHead else NegHead) \<and>
       (f = 0 \<longrightarrow> gt_zero a \<or> lt_zero a)"
    by blast
next
  assume b: "q \<in> set (nonzero (A ar)) \<and> mat_get (F ar) (fst q) (snd q) = Some 0 \<and>
    mat_get (A ar) (fst q) (snd q) = Some a0 \<and> \<not> gt_zero a0 \<and> \<not> lt_zero a0"
  then have q: "q \<in> set (nonzero (A ar))" and
    bad: "mat_get (F ar) (fst q) (snd q) = Some 0" "mat_get (A ar) (fst q) (snd q) = Some a0"
      "\<not> gt_zero a0" "\<not> lt_zero a0" by simp_all
  show "\<forall>net''. visualize ev ar net \<noteq> Done net''"
  proof (intro allI notI)
    fix net'' assume "visualize ev ar net = Done net''"
    from visualize_Done[OF this] obtain ns ls where
      "update_edges (net\<lparr>nodes := ns, labels := ls\<rparr>) (A ar) (F ar) (invert (n2i ar))
       (pct_edge ar) (lw_min ar) (lw_max ar) = Done net''"
      by blast
    from update_edges_Done[OF this] obtain flow_max flow_min flow_thr where
      "edges_loop (A ar) (F ar) (invert (n2i ar)) flow_max flow_min flow_thr
         (lw_min ar) (lw_max ar) (nonzero (A ar)) (net\<lparr>nodes := ns, labels := ls\<rparr>) = Done net''"
      by blast
    with edges_loop_bad_not_Done[OF q bad] show False by blast
  qed
next
  assume b: "q \<in> set (nonzero (A ar)) \<and> mat_get (F ar) (fst q) (snd q) = Some 0 \<and>
    mat_get (A ar) (fst q) (snd q) = Some a0 \<and> \<not> gt_zero a0 \<and> \<not> lt_zero a0"
  then have q: "q \<in> set (nonzero (A ar))" and
    bad: "mat_get (F ar) (fst q) (snd q) = Some 0" "mat_get (A ar) (fst q) (snd q) = Some a0"
      "\<not> gt_zero a0" "\<not> lt_zero a0" by simp_all
  assume c: "node_pass ev ar net = Done net1 \<and>
           flow_stats (F ar) (pct_edge ar) = Inr st \<and>
           (\<forall>r\<in>set (nonzero (A ar)). lookups_ok (invert (n2i ar)) (F ar) (nxgraph net) r)"
  then have np: "node_pass ev ar net = Done net1" and
    st: "flow_stats (F ar) (pct_edge ar) = Inr st" and
    lk: "\<forall>r\<in>set (nonzero (A ar)). lookups_ok (invert (n2i ar)) (F ar) (nxgraph net) r"
    by simp_all
  obtain flow_max flow_min flow_thr where st': "st = (flow_max, flow_min, flow_thr)"
    by (cases st)
  have ok: "\<forall>r\<in>set (nonzero (A ar)).
      lookups_ok (invert (n2i ar)) (F ar) (nxgraph net1) r \<and>
      mat_get (A ar) (fst r) (snd r) \<noteq> None"
    using lk node_pass_nxgraph[OF np] nonzero_mat_get by fastforce
  from edges_loop_abnormal[OF q bad ok, of flow_max flow_min flow_thr "lw_min ar" "lw_max ar"]
  obtain s where
    "edges_loop (A ar) (F ar) (invert (n2i ar)) flow_max flow_min flow_thr
       (lw_min ar) (lw_max ar) (nonzero (A ar)) net1 =
     Raised (RuntimeError ''The logic is abnormal.'') s" by blast
  then have "visualize ev ar net = Raised (RuntimeError ''The logic is abnormal.'') s"
    using np st st' by (simp add: visualize_split update_edges_def)
  then show "\<exists>s. visualize ev ar net = Raised (RuntimeError ''The logic is abnormal.'') s"
    by blast
qed

lemma Raised_state_of: "r = Raised e s \<Longrightarrow> r = Raised e (state_of r)"
  by (simp add: state_of_def)

lemma ex_nonzero_nan: "nonzero (A ex_args_nan) = [(0, 1), (1, 0)]"
  by (simp add: nonzero_def is_nonzero_def ex_args_nan_def)

lemma ex_node_pass_nan:
  "node_pass ex_env ex_args_nan ex_net = Done (state_of (node_pass ex_env ex_args_nan ex_net))"
proof -
  have "\<exists>net1. node_pass ex_env ex_args_nan ex_net = Done net1"
    by (simp add: node_pass_def ev_defs ex_args_nan_def Let_def)
  then obtain net1 where "node_pass ex_env ex_args_nan ex_net = Done net1" ..
  then show ?thesis by (rule Done_state_of)
qed

lemma ex_stats_nan: "flow_stats (F ex_args_nan) (pct_edge ex_args_nan) = Inr (0, 0, 0)"
  by (simp add: ev_defs ex_args_nan_def)

lemma ex_lookups_nan:
  "lookups_ok (invert (n2i ex_args_nan)) (F ex_args_nan) (nxgraph ex_net) (0, 1)"
  "lookups_ok (invert (n2i ex_args_nan)) (F ex_args_nan) (nxgraph ex_net) (1, 0)"
  by (simp_all add: lookups_ok_def invert_def mat_get_def ex_args_nan_def ex_args_def ex_net_def)

theorem arrowhead_polarity_witness:
  "(visualize ex_env ex_args ex_net = Done (state_of (visualize ex_env ex_args ex_net)) \<and>
    distinct (map fst (n2i ex_args)) \<and> (1, 0) \<in> set (nonzero (A ex_args))) \<and>
   (\<exists>k e f a.
       edge_at (invert (n2i ex_args)) (1, 0) = Some k \<and>
       nxgraph (state_of (visualize ex_env ex_args ex_net)) k = Some e \<and>
       mat_get (F ex_args) (fst (1::nat, 0::nat)) (snd (1::nat, 0::nat)) = Some f \<and>
       mat_get (A ex_args) (fst (1::nat, 0::nat)) (snd (1::nat, 0::nat)) = Some a \<and>
       h_class (e_head e) =
         (if f > 0 then PosHead else if f < 0 then NegHead
          else if gt_zero a then PosHead else NegHead) \<and>
       (f = 0 \<longrightarrow> gt_zero a \<or> lt_zero a)) \<and>
   ((0, 1) \<in> set (nonzero (A ex_args_nan)) \<and>
    mat_get (F ex_args_nan) (fst (0::nat, 1::nat)) (snd (0::nat, 1::nat)) = Some 0 \<and>
    mat_get (A ex_args_nan) (fst (0::nat, 1::nat)) (snd (0::nat, 1::nat)) = Some NaN \<and>
    \<not> gt_zero NaN \<and> \<not> lt_zero NaN) \<and>
   (\<forall>net''. visualize ex_env ex_args_nan ex_net \<noteq> Done net'') \<and>
   node_pass ex_env ex_args_nan ex_net = Done (state_of (node_pass ex_env ex_args_nan ex_net)) \<and>
   flow_stats (F ex_args_nan) (pct_edge ex_args_nan) = Inr (0, 0, 0) \<and>
   nonzero (A ex_args_nan) = [(0, 1), (1, 0)] \<and>
   lookups_ok (invert (n2i ex_args_nan)) (F ex_args_nan) (nxgraph ex_net) (0, 1) \<and>
   lookups_ok (invert (n2i ex_args_nan)) (F ex_args_nan) (nxgraph ex_net) (1, 0) \<and>
   visualize ex_env ex_args_nan ex_net =
     Raised (RuntimeError ''The logic is abnormal.'')
       (state_of (visualize ex_env ex_args_nan ex_net))"
proof -
  have p: "(1, 0) \<in> set (nonzero (A ex_args))" by (simp add: ex_nonzero)
  have h1: "visualize ex_env ex_args ex_net = Done (state_of (visualize ex_env ex_args ex_net)) \<and>
    distinct (map fst (n2i ex_args)) \<and> (1, 0) \<in> set (nonzero (A ex_args))"
    by (rule conjI[OF ex_run conjI[OF ex_distinct p]])
  note c1 = arrowhead_polarity[where ev = ex_env and ar = ex_args and net = ex_net
      and net' = "state_of (visualize ex_env ex_args ex_net)" and p = "(1, 0)",
      THEN conjunct1, THEN mp, OF h1]
  have h2: "(0, 1) \<in> set (nonzero (A ex_args_nan)) \<and>
    mat_get (F ex_args_nan) (fst (0::nat, 1::nat)) (snd (0::nat, 1::nat)) = Some 0 \<and>
    mat_get (A ex_args_nan) (fst (0::nat, 1::nat)) (snd (0::nat, 1::nat)) = Some NaN \<and>
    \<not> gt_zero NaN \<and> \<not> lt_zero NaN"
  proof -
    have m: "(0, 1) \<in> set (nonzero (A ex_args_nan))" by (simp add: ex_nonzero_nan)
    have r: "mat_get (F ex_args_nan) (fst (0::nat, 1::nat)) (snd (0::nat, 1::nat)) = Some 0 \<and>
      mat_get (A ex_args_nan) (fst (0::nat, 1::nat)) (snd (0::nat, 1::nat)) = Some NaN \<and>
      \<not> gt_zero NaN \<and> \<not> lt_zero NaN"
      by (simp add: mat_get_def ex_args_nan_def gt_zero_def lt_zero_def)
    from m r show ?thesis by (rule conjI)
  qed
  note t2 = arrowhead_polarity[where ev = ex_env and ar = ex_args_nan and net = ex_net
      and q = "(0, 1)" and ?a0.0 = NaN
      and ?net1.0 = "state_of (node_pass ex_env ex_args_nan ex_net)" and st = "(0, 0, 0)",
      THEN conjunct2, THEN mp, OF h2]
  note never = t2[THEN conjunct1]
  have all: "\<forall>r\<in>set (nonzero (A ex_args_nan)).
      lookups_ok (invert (n2i ex_args_nan)) (F ex_args_nan) (nxgraph ex_net) r"
    using ex_lookups_nan by (simp add: ex_nonzero_nan)
  have h3: "node_pass ex_env ex_args_nan ex_net =
        Done (state_of (node_pass ex_env ex_args_nan ex_net)) \<and>
      flow_stats (F ex_args_nan) (pct_edge ex_args_nan) = Inr (0, 0, 0) \<and>
      (\<forall>r\<in>set (nonzero (A ex_args_nan)).
        lookups_ok (invert (n2i ex_args_nan)) (F ex_args_nan) (nxgraph ex_net) r)"
    by (rule conjI[OF ex_node_pass_nan conjI[OF ex_stats_nan all]])
  from t2[THEN conjunct2, THEN mp, OF h3] obtain s where
    "visualize ex_env ex_args_nan ex_net = Raised (RuntimeError ''The logic is abnormal.'') s" ..
  then have raised: "visualize ex_env ex_args_nan ex_net =
     Raised (RuntimeError ''The logic is abnormal.'')
       (state_of (visualize ex_env ex_args_nan ex_net))" by (rule Raised_state_of)
  show ?thesis
    by (rule conjI[OF h1 conjI[OF c1 conjI[OF h2 conjI[OF never conjI[OF ex_node_pass_nan
        conjI[OF ex_stats_nan conjI[OF ex_nonzero_nan conjI[OF ex_lookups_nan(1)
        conjI[OF ex_lookups_nan(2) raised]]]]]]]]])
qed

subsection \<open>The labels through the loop over the nodes\<close>

lemma node_body_steps:
  assumes "node_body ev ar cup cdn fnt ts nd ls = Done (nd', ls')"
  shows "\<exists>idx ndc ls2.
     map_of (n2i ar) (n_iden nd) = Some idx \<and> idx < length (acts ar) \<and>
     n_iden ndc = n_iden nd \<and> n_name ndc = n_name nd \<and>
     (if show_label ar
      then update_single_label_name ev ls ndc (n_name ndc) (fix_node_size ar) fnt = Done (nd', ls2)
      else nd' = ndc \<and> ls2 = ls) \<and>
     (if show_act ar
      then update_single_label_activity ev ls2 nd' (acts ar ! idx) (fix_act_label ar)
             (fmt_act ar) fnt = Done ls'
      else ls' = (case ls2 (act_iden (n_iden nd')) of
                    Some lab \<Rightarrow> remove_label ls2 lab | None \<Rightarrow> ls2))"
proof -
  from assms obtain idx where idx: "map_of (n2i ar) (n_iden nd) = Some idx"
    by (auto simp: node_body_def split: option.splits)
  from assms idx have len: "idx < length (acts ar)"
    by (auto simp: node_body_def Let_def split: if_splits)
  define nd0 where "nd0 = (if \<not> fix_node_size ar then nd\<lparr>n_width := 20, n_height := 20\<rparr> else nd)"
  define ndc where "ndc = nd0\<lparr>n_fill_color :=
      (if acts ar ! idx > 0 then blend cup (ts ! idx) else blend cdn (ts ! idx)),
      n_border_width := 2, n_border_color := (40, 40, 40)\<rparr>"
  have ndc: "n_iden ndc = n_iden nd" "n_name ndc = n_name nd"
    by (simp_all add: ndc_def nd0_def)
  define r1 where "r1 = (if show_label ar
           then update_single_label_name ev ls ndc (n_name ndc) (fix_node_size ar) fnt
           else Done (ndc, ls))"
  have body: "node_body ev ar cup cdn fnt ts nd ls =
     (case r1 of
        Raised e s \<Rightarrow> Raised e s
      | Done (nd2, ls2) \<Rightarrow>
          if show_act ar then
            (case update_single_label_activity ev ls2 nd2 (acts ar ! idx) (fix_act_label ar)
                    (fmt_act ar) fnt of
               Raised e ls3 \<Rightarrow> Raised e (nd2, ls3)
             | Done ls3 \<Rightarrow> Done (nd2, ls3))
          else
            (case ls2 (act_iden (n_iden nd2)) of
               Some lab \<Rightarrow> Done (nd2, remove_label ls2 lab)
             | None \<Rightarrow> Done (nd2, ls2)))"
    using idx len by (simp add: node_body_def Let_def r1_def ndc_def nd0_def)
  from assms body obtain nd2 ls2 where r1: "r1 = Done (nd2, ls2)"
    by (cases r1) (auto split: prod.splits)
  from assms body r1 have nd': "nd' = nd2"
    by (auto split: if_splits outcome.splits option.splits)
  have name: "if show_label ar
      then update_single_label_name ev ls ndc (n_name ndc) (fix_node_size ar) fnt = Done (nd', ls2)
      else nd' = ndc \<and> ls2 = ls"
    using r1 nd' by (auto simp: r1_def split: if_splits)
  have act: "if show_act ar
      then update_single_label_activity ev ls2 nd' (acts ar ! idx) (fix_act_label ar)
             (fmt_act ar) fnt = Done ls'
      else ls' = (case ls2 (act_iden (n_iden nd')) of
                    Some lab \<Rightarrow> remove_label ls2 lab | None \<Rightarrow> ls2)"
    using assms body r1 nd' by (auto split: if_splits outcome.splits option.splits)
  from idx len ndc name act show ?thesis by blast
qed

lemma update_single_label_name_labels:
  assumes "update_single_label_name ev ls nd name fix_size fnt = Done (nd', ls')"
  shows "\<exists>l l'. ls name = Some l \<and> ls' = ls(name \<mapsto> l') \<and> l_iden l' = l_iden l"
  using assms
  by (auto simp: update_single_label_name_def Let_def split: option.splits if_splits)

lemma name_step_labels:
  assumes "if show_label ar
      then update_single_label_name ev ls ndc name fix_size fnt = Done (nd', ls2)
      else nd' = ndc \<and> ls2 = ls"
    and "labels_wf ls"
  shows "labels_wf ls2 \<and> dom ls2 = dom ls"
proof (cases "show_label ar")
  case True
  with assms(1) have "update_single_label_name ev ls ndc name fix_size fnt = Done (nd', ls2)"
    by simp
  from update_single_label_name_labels[OF this] obtain l l' where
    l: "ls name = Some l" "ls2 = ls(name \<mapsto> l')" "l_iden l' = l_iden l" by blast
  have "l_iden l = name" using assms(2) l(1) by (simp add: labels_wf_def)
  then have "labels_wf ls2" using assms(2) l by (auto simp: labels_wf_def)
  moreover have "dom ls2 = dom ls" using l by auto
  ultimately show ?thesis by simp
next
  case False
  with assms show ?thesis by simp
qed

lemma node_body_hide:
  assumes "node_body ev ar cup cdn fnt ts nd ls = Done (nd', ls')"
    and "\<not> show_act ar" and "labels_wf ls"
  shows "labels_wf ls' \<and> dom ls' \<subseteq> dom ls \<and> ls' (act_iden (n_iden nd)) = None"
proof -
  from node_body_steps[OF assms(1)] assms(2) obtain ndc ls2 where
    id: "n_iden ndc = n_iden nd" and
    name: "if show_label ar
      then update_single_label_name ev ls ndc (n_name ndc) (fix_node_size ar) fnt = Done (nd', ls2)
      else nd' = ndc \<and> ls2 = ls" and
    act: "ls' = (case ls2 (act_iden (n_iden nd')) of
                    Some lab \<Rightarrow> remove_label ls2 lab | None \<Rightarrow> ls2)"
    by auto
  have id': "n_iden nd' = n_iden nd"
  proof (cases "show_label ar")
    case True
    with name update_single_label_name_node id show ?thesis by fastforce
  next
    case False
    with name id show ?thesis by simp
  qed
  from name_step_labels[OF name assms(3)] have wf2: "labels_wf ls2" and d2: "dom ls2 = dom ls"
    by simp_all
  show ?thesis
  proof (cases "ls2 (act_iden (n_iden nd))")
    case None
    with act id' have "ls' = ls2" by simp
    with wf2 d2 None show ?thesis by simp
  next
    case (Some lab)
    then have "l_iden lab = act_iden (n_iden nd)" using wf2 by (simp add: labels_wf_def)
    with act id' Some have e: "ls' = ls2(act_iden (n_iden nd) := None)"
      by (simp add: remove_label_def)
    have "labels_wf ls'" using wf2 unfolding e by (auto simp: labels_wf_def)
    moreover have "dom ls' \<subseteq> dom ls" using d2 unfolding e by auto
    ultimately show ?thesis unfolding e by simp
  qed
qed

lemma nodes_loop_hide:
  assumes "nodes_loop ev ar cup cdn fnt ts seen todo ls = Done (ns, ls')"
    and "\<not> show_act ar" and "labels_wf ls"
  shows "labels_wf ls' \<and> dom ls' \<subseteq> dom ls \<and>
         (\<forall>nd\<in>set todo. ls' (act_iden (n_iden nd)) = None)"
  using assms(1,3)
proof (induction todo arbitrary: seen ls)
  case Nil
  then show ?case by simp
next
  case (Cons nd rest)
  from Cons.prems(1) obtain nd1 ls1 where
    step: "node_body ev ar cup cdn fnt ts nd ls = Done (nd1, ls1)" and
    rest: "nodes_loop ev ar cup cdn fnt ts (seen @ [nd1]) rest ls1 = Done (ns, ls')"
    by (auto split: outcome.splits prod.splits)
  from node_body_hide[OF step assms(2) Cons.prems(2)] have
    s: "labels_wf ls1" "dom ls1 \<subseteq> dom ls" "ls1 (act_iden (n_iden nd)) = None" by simp_all
  from Cons.IH[OF rest s(1)] have
    r: "labels_wf ls'" "dom ls' \<subseteq> dom ls1" "\<forall>nd\<in>set rest. ls' (act_iden (n_iden nd)) = None"
    by simp_all
  have "ls' (act_iden (n_iden nd)) = None" using r(2) s(3) by (auto simp: domIff)
  with r s show ?case by auto
qed

end
